theory Spec2Isabelle
  imports Complex_Main "HOL-Library.AList" "HOL-Library.Sublist"
begin

section \<open>Python values and GeoJSON data\<close>

text \<open>
  Property bags and provider payloads are Python dicts of dynamically typed values.
  A dict is an association list in insertion order with distinct keys; lookup is
  \<open>map_of\<close>, assignment is \<open>AList.update\<close> (an existing key keeps its position, a
  new key goes to the end), \<open>del\<close> is \<open>AList.delete\<close>.
  Floats and booleans are not part of the value universe, so that HOL equality on
  \<open>pyval\<close> agrees with Python's \<open>==\<close> on the values that can be hashed.
\<close>

datatype pyval =
    PNone
  | PStr string
  | PInt int
  | PList "pyval list"
  | PDict "(string \<times> pyval) list"

type_synonym pydict = "(string \<times> pyval) list"

datatype error = TypeError | AttributeError | KeyError | IndexError | UnboundLocalError

text \<open>Python truthiness of a value.\<close>

fun truthy :: "pyval \<Rightarrow> bool" where
  "truthy PNone = False"
| "truthy (PStr s) = (s \<noteq> [])"
| "truthy (PInt i) = (i \<noteq> 0)"
| "truthy (PList xs) = (xs \<noteq> [])"
| "truthy (PDict d) = (d \<noteq> [])"

text \<open>Lists and dicts cannot be members of a Python set.\<close>

fun hashable :: "pyval \<Rightarrow> bool" where
  "hashable (PList xs) = False"
| "hashable (PDict d) = False"
| "hashable v = True"

text \<open>
  A GeoJSON feature is a dict with the keys \<open>type\<close>, \<open>geometry\<close> and \<open>properties\<close>;
  a field is \<open>None\<close> when the key is missing. A dataset is a dict with the keys
  \<open>type\<close>, \<open>features\<close> and \<open>properties\<close> (the property-name manifest); the empty
  dict \<open>{}\<close> has all three missing.
\<close>

record feature =
  f_type :: "pyval option"
  f_geometry :: "pyval option"
  f_properties :: "pydict option"

record dataset =
  ds_type :: "pyval option"
  ds_features :: "feature list option"
  ds_properties :: "string list option"

definition empty_dict :: dataset where
  "empty_dict = \<lparr>ds_type = None, ds_features = None, ds_properties = None\<rparr>"

text \<open>\<open>if dataset:\<close> on a dict: true when it has at least one key.\<close>

definition ds_truthy :: "dataset \<Rightarrow> bool" where
  "ds_truthy d = (ds_type d \<noteq> None \<or> ds_features d \<noteq> None \<or> ds_properties d \<noteq> None)"

text \<open>\<open>feature.get("properties", {}).get("id")\<close>\<close>

definition feature_id :: "feature \<Rightarrow> pyval" where
  "feature_id f =
     (case f_properties f of
        None \<Rightarrow> PNone
      | Some p \<Rightarrow> (case map_of p ''id'' of None \<Rightarrow> PNone | Some v \<Rightarrow> v))"

section \<open>Requests, configuration and the call trace\<close>

text \<open>The fields of \<open>ReqFetchDataset\<close> that the connector reads.\<close>

record req =
  lat :: rat
  lng :: rat
  radius :: rat
  boolean_query :: string
  action :: string
  search_type :: string
  page_token :: string
  ids_and_location_only :: bool
  include_rating_info :: bool
  include_only_sub_properties :: bool

text \<open>The fields of \<open>CONF\<close> that the connector reads.\<close>

record conf =
  test_mode :: bool
  api_key :: string
  legacy_nearby_search_url :: string
  place_details_url :: string
  search_text_url :: string
  nearby_search_url :: string
  ggl_details_fields :: string
  ggl_nearby_pro_sku_fields :: string
  ggl_nearby_enterprise_sku_fields :: string
  ggl_txt_search_ids_only_essential :: string

text \<open>
  The JSON body of a provider call, in the two shapes the payload builders produce:
  a text search (query, latitude, longitude, radius of the location bias) and a
  nearby search (included types, excluded types, latitude, longitude, radius of the
  location restriction).
\<close>

datatype body =
    TextBody string rat rat rat
  | NearbyBody "string list" "string list" rat rat rat

record http_request =
  url :: string
  headers :: "(string \<times> string) list"
  data :: "body option"

record post_response =
  p_status :: int
  p_places :: "pyval list option"

record get_response =
  g_status :: int
  g_json :: pyval

text \<open>
  Every effect of the connector is an event appended to a trace, in the order the
  code performs it. Calls into the plan module carry their results.
\<close>

datatype event =
    Sleep rat
  | HttpPost http_request
  | HttpGet string "(string \<times> string) list"
  | LoadDataset string
  | StoreDataResp req dataset string
  | LoadPlaceDetails string
  | StorePlaceDetails string pyval
  | ProcessReqPlan req req string string int
  | RectifyPlan string int int string
  | MarkPlanResult string int bool

text \<open>
  The collaborators that are imported by the connector: the provider, the storage
  module, the converters, the query decomposer and the plan module. Each one that
  reads state is a function of the trace so far, so nothing is assumed about what it
  answers. A provider call always yields a response with a status, and a call into
  the storage or the plan module always returns: connection errors and storage
  failures, which the connector lets propagate, are not modelled.
  \<open>py_str\<close> is Python's formatting of a number inside an f-string and \<open>py_int\<close>
  is \<open>int\<close> on a string (\<open>None\<close> for \<open>ValueError\<close>).
\<close>

record env =
  CONF :: conf
  py_str :: "rat \<Rightarrow> string"
  py_int :: "string \<Rightarrow> int option"
  http_post :: "event list \<Rightarrow> http_request \<Rightarrow> post_response"
  http_get :: "event list \<Rightarrow> string \<Rightarrow> (string \<times> string) list \<Rightarrow> get_response"
  get_test_data_for_post_call :: "http_request \<Rightarrow> pyval list"
  get_test_data_for_get_call :: "string \<Rightarrow> (string \<times> string) list \<Rightarrow> pyval"
  load_place_details :: "event list \<Rightarrow> string \<Rightarrow> pyval"
  load_dataset :: "event list \<Rightarrow> string \<Rightarrow> dataset option"
  make_dataset_filename :: "req \<Rightarrow> string"
  make_dataset_filename_part :: "req \<Rightarrow> string list \<Rightarrow> string list \<Rightarrow> string"
  new_ggl_to_boxmap :: "pyval list \<Rightarrow> rat \<Rightarrow> dataset"
  convert_strings_to_ints :: "dataset \<Rightarrow> dataset"
  separate_boolean_queries :: "string \<Rightarrow> string \<times> string"
  optimize_query_sequence :: "string \<Rightarrow> (string list \<times> string list) list"
  text_search_query_sequence :: "string \<Rightarrow> (string list \<times> string list) list"
  process_req_plan :: "event list \<Rightarrow> req \<Rightarrow> req \<times> string \<times> string \<times> int \<times> string"
  rectify_plan :: "event list \<Rightarrow> string \<Rightarrow> int \<Rightarrow> int \<times> string"
  fetch_lat_lng_bounding_box :: "req \<Rightarrow> req"

section \<open>The call orchestrator\<close>

text \<open>
  Delays and coordinates are rationals. \<open>MIN_DELAY * 2 ** k\<close> scales by a power of
  two, which is exact on floats, so the delays of the model are those of the code up
  to the float nearest to 0.7.
\<close>

definition MIN_DELAY :: rat where
  "MIN_DELAY = 7 / 10"

definition max_retries :: nat where
  "max_retries = 3"

text \<open>\<open>str(n)\<close> for an integer.\<close>

fun str_nat :: "nat \<Rightarrow> string" where
  "str_nat n =
     (if n < 10 then [''0123456789'' ! n]
      else str_nat (n div 10) @ [''0123456789'' ! (n mod 10)])"

definition str_int :: "int \<Rightarrow> string" where
  "str_int i = (if i < 0 then CHR ''-'' # str_nat (nat (- i)) else str_nat (nat i))"

text \<open>\<open>sep.join(xs)\<close>\<close>

fun join :: "string \<Rightarrow> string list \<Rightarrow> string" where
  "join sep [] = []"
| "join sep [x] = x"
| "join sep (x # y # ys) = x @ sep @ join sep (y # ys)"

text \<open>
  The tail of \<open>build_compatible_legacy_payload\<close>: the query string keeps the
  parameters whose value is not \<open>None\<close>, the headers are replaced, the body is dropped.
\<close>

definition legacy_request :: "conf \<Rightarrow> (string \<times> string option) list \<Rightarrow> http_request" where
  "legacy_request cnf params =
     \<lparr>url = legacy_nearby_search_url cnf @ ''?'' @
              join ''&'' (concat (map (\<lambda>(k, v). case v of None \<Rightarrow> [] | Some s \<Rightarrow> [k @ ''='' @ s]) params)),
      headers = [(''Content-Type'', ''application/json'')],
      data = None\<rparr>"

definition build_compatible_legacy_payload :: "env \<Rightarrow> http_request \<Rightarrow> error + http_request" where
  "build_compatible_legacy_payload e rq =
     (case data rq of
        None \<Rightarrow> Inl TypeError
      | Some (TextBody text_query lt lg r) \<Rightarrow>
          Inr (legacy_request (CONF e)
                 [(''query'', Some text_query),
                  (''location'', Some (py_str e lt @ '','' @ py_str e lg)),
                  (''radius'', Some (py_str e r)),
                  (''key'', map_of (headers rq) ''X-Goog-Api-Key'')])
      | Some (NearbyBody included_types excluded_types lt lg r) \<Rightarrow>
          Inr (legacy_request (CONF e)
                 ([(''location'', Some (py_str e lt @ '','' @ py_str e lg)),
                   (''radius'', Some (py_str e r)),
                   (''key'', map_of (headers rq) ''X-Goog-Api-Key'')] @
                  (case included_types of [] \<Rightarrow> [] | t # _ \<Rightarrow> [(''type'', Some t)]))))"

text \<open>The sentinel batch returned when every attempt has failed.\<close>

definition sentinel :: "int \<Rightarrow> pyval" where
  "sentinel st =
     PDict [(''name'', PStr (''Faild to retreive data '' @ str_int st)), (''id'', PStr ''n/a'')]"

text \<open>
  The \<open>while retry_count < max_retries\<close> loop of \<open>make_get_api_call\<close>. The result
  is \<open>PNone\<close> when the loop is left without a \<open>return\<close>.
\<close>

function get_loop ::
  "env \<Rightarrow> string \<Rightarrow> (string \<times> string) list \<Rightarrow> nat \<Rightarrow> event list \<Rightarrow> pyval \<times> event list"
where
  "get_loop e u h retry_count tr =
     (if retry_count < max_retries then
        (let tr1 = tr @ [Sleep MIN_DELAY];
             response = http_get e tr1 u h;
             tr2 = tr1 @ [HttpGet u h]
         in if g_status response = 200 then (g_json response, tr2)
            else if retry_count + 1 < max_retries
              then get_loop e u h (retry_count + 1)
                     (tr2 @ [Sleep (MIN_DELAY * 2 ^ (retry_count + 1))])
              else (PDict [], tr2))
      else (PNone, tr))"
  by pat_completeness auto
termination
  by (relation "measure (\<lambda>(e, u, h, retry_count, tr). max_retries - retry_count)") auto

definition make_get_api_call ::
  "env \<Rightarrow> string \<Rightarrow> (string \<times> string) list \<Rightarrow> event list \<Rightarrow> pyval \<times> event list"
where
  "make_get_api_call e u h tr =
     (if test_mode (CONF e) then (get_test_data_for_get_call e u h, tr)
      else get_loop e u h 0 tr)"

text \<open>
  The loop of \<open>make_post_api_call\<close>; the result is \<open>None\<close> when the loop is left
  without a \<open>return\<close>. \<open>retry_count -= 2\<close> is reached only when the
  incremented counter is at least \<open>max_retries\<close>, so the subtraction on \<open>nat\<close> is
  the one on Python's integers.
\<close>

function post_loop ::
  "env \<Rightarrow> http_request \<Rightarrow> nat \<Rightarrow> bool \<Rightarrow> event list \<Rightarrow> (error + pyval list option) \<times> event list"
where
  "post_loop e rq retry_count use_legacy tr =
     (if retry_count < max_retries then
        (let tr1 = tr @ [Sleep MIN_DELAY];
             response = http_post e tr1 rq;
             tr2 = tr1 @ [HttpPost rq]
         in if p_status response = 200
            then (Inr (Some (case p_places response of None \<Rightarrow> [] | Some ps \<Rightarrow> ps)), tr2)
            else if retry_count + 1 < max_retries
              then post_loop e rq (retry_count + 1) use_legacy
                     (tr2 @ [Sleep (MIN_DELAY * 2 ^ (retry_count + 1))])
              else if \<not> use_legacy
                then (case build_compatible_legacy_payload e rq of
                        Inl err \<Rightarrow> (Inl err, tr2)
                      | Inr rq' \<Rightarrow> post_loop e rq' (retry_count + 1 - 2) True tr2)
                else (Inr (Some (replicate 20 (sentinel (p_status response)))), tr2))
      else (Inr None, tr))"
  by pat_completeness auto
termination
  by (relation "measure (\<lambda>(e, rq, retry_count, use_legacy, tr).
        (max_retries - retry_count) + (if use_legacy then 0 else 2))")
     (auto simp: max_retries_def)

definition make_post_api_call ::
  "env \<Rightarrow> http_request \<Rightarrow> event list \<Rightarrow> (error + pyval list option) \<times> event list"
where
  "make_post_api_call e rq tr =
     (if test_mode (CONF e) then (Inr (Some (get_test_data_for_post_call e rq)), tr)
      else post_loop e rq 0 False tr)"

text \<open>\<open>x.get(key)\<close> on a value that should be a dict.\<close>

definition py_get :: "pyval \<Rightarrow> string \<Rightarrow> error + pyval" where
  "py_get x k =
     (case x of
        PDict d \<Rightarrow> Inr (case map_of d k of None \<Rightarrow> PNone | Some v \<Rightarrow> v)
      | _ \<Rightarrow> Inl AttributeError)"

definition build_details_search_payload :: "env \<Rightarrow> string \<Rightarrow> string \<times> (string \<times> string) list" where
  "build_details_search_payload e place_id =
     (place_details_url (CONF e) @ place_id,
      [(''Content-Type'', ''application/json''),
       (''X-Goog-Api-Key'', api_key (CONF e)),
       (''X-Goog-FieldMask'', ggl_details_fields (CONF e))])"

definition build_text_search_payload :: "env \<Rightarrow> req \<Rightarrow> string \<Rightarrow> http_request" where
  "build_text_search_payload e r textQuery =
     (let feilds = (if ids_and_location_only r then ggl_txt_search_ids_only_essential (CONF e)
                    else ggl_nearby_pro_sku_fields (CONF e))
      in \<lparr>url = search_text_url (CONF e),
          headers = [(''Content-Type'', ''application/json''),
                     (''X-Goog-Api-Key'', api_key (CONF e)),
                     (''X-Goog-FieldMask'', feilds @ '',nextPageToken'')],
          data = Some (TextBody textQuery (lat r) (lng r) (radius r))\<rparr>)"

definition build_category_search_payload ::
  "env \<Rightarrow> req \<Rightarrow> string list \<Rightarrow> string list \<Rightarrow> http_request"
where
  "build_category_search_payload e r include exclude =
     (let feilds = (if include_rating_info r then ggl_nearby_enterprise_sku_fields (CONF e)
                    else ggl_nearby_pro_sku_fields (CONF e))
      in \<lparr>url = nearby_search_url (CONF e),
          headers = [(''Content-Type'', ''application/json''),
                     (''X-Goog-Api-Key'', api_key (CONF e)),
                     (''X-Goog-FieldMask'', feilds)],
          data = Some (NearbyBody include exclude (lat r) (lng r) (radius r))\<rparr>)"

text \<open>
  The \<open>for place in results\<close> loop of \<open>single_ggl_text_call\<close>.
  \<open>CONF.place_details_url + place_id\<close> raises \<open>TypeError\<close> unless the id is a string.
\<close>

fun details_loop ::
  "env \<Rightarrow> pyval list \<Rightarrow> pyval list \<Rightarrow> event list \<Rightarrow> (error + pyval list) \<times> event list"
where
  "details_loop e [] detailed_results tr = (Inr detailed_results, tr)"
| "details_loop e (place # rest) detailed_results tr =
     (case py_get place ''id'' of
        Inl err \<Rightarrow> (Inl err, tr)
      | Inr (PStr place_id) \<Rightarrow>
          (let (u, h) = build_details_search_payload e place_id;
               details = load_place_details e tr place_id;
               tr1 = tr @ [LoadPlaceDetails place_id]
           in if \<not> truthy details then
                (let (details', tr2) = make_get_api_call e u h tr1;
                     tr3 = (if truthy details' then tr2 @ [StorePlaceDetails place_id details']
                            else tr2)
                 in details_loop e rest (detailed_results @ [details']) tr3)
              else details_loop e rest (detailed_results @ [details]) tr1)
      | Inr _ \<Rightarrow> (Inl TypeError, tr))"

text \<open>
  \<open>single_ggl_text_call\<close> returns the one-entry dict \<open>{id: results}\<close>, here the pair.
  Iterating over \<open>None\<close> raises \<open>TypeError\<close>.
\<close>

definition single_ggl_text_call ::
  "env \<Rightarrow> req \<Rightarrow> string \<Rightarrow> string \<Rightarrow> event list
     \<Rightarrow> (error + string \<times> pyval list option) \<times> event list"
where
  "single_ggl_text_call e r text_query ident tr =
     (case make_post_api_call e (build_text_search_payload e r text_query) tr of
        (Inl err, tr1) \<Rightarrow> (Inl err, tr1)
      | (Inr results, tr1) \<Rightarrow>
          if ids_and_location_only r then
            (case results of
               None \<Rightarrow> (Inl TypeError, tr1)
             | Some places \<Rightarrow>
                 (case details_loop e places [] tr1 of
                    (Inl err, tr2) \<Rightarrow> (Inl err, tr2)
                  | (Inr detailed_results, tr2) \<Rightarrow> (Inr (ident, Some detailed_results), tr2)))
          else (Inr (ident, results), tr1))"

definition single_ggl_cat_call ::
  "env \<Rightarrow> req \<Rightarrow> string list \<Rightarrow> string list \<Rightarrow> event list
     \<Rightarrow> (error + pyval list option) \<times> event list"
where
  "single_ggl_cat_call e r include exclude tr =
     make_post_api_call e (build_category_search_payload e r include exclude) tr"

section \<open>The composition engine\<close>

definition process_and_store_to_db ::
  "env \<Rightarrow> req \<Rightarrow> string \<Rightarrow> pyval list \<Rightarrow> event list \<Rightarrow> dataset \<times> event list"
where
  "process_and_store_to_db e r dataset_id query_results tr =
     (let format_response = convert_strings_to_ints e (new_ggl_to_boxmap e query_results (radius r))
      in (format_response, tr @ [StoreDataResp r format_response dataset_id]))"

text \<open>The value of \<open>x\<close> when \<open>if x:\<close> holds.\<close>

definition truthy_ds :: "dataset option \<Rightarrow> dataset option" where
  "truthy_ds x = (case x of None \<Rightarrow> None | Some d \<Rightarrow> if ds_truthy d then Some d else None)"

text \<open>\<open>if query_results:\<close> on a list or \<open>None\<close>.\<close>

definition truthy_results :: "pyval list option \<Rightarrow> pyval list option" where
  "truthy_results x = (case x of None \<Rightarrow> None | Some [] \<Rightarrow> None | Some (p # ps) \<Rightarrow> Some (p # ps))"

subsection \<open>The union step\<close>

text \<open>
  The inner loop of the union step, the same in both composition functions: the
  features collected so far and the set \<open>seen_ids\<close>. Testing membership of a list
  or a dict in a set raises \<open>TypeError\<close>.
\<close>

fun union_features ::
  "feature list \<Rightarrow> feature list \<times> pyval set \<Rightarrow> error + feature list \<times> pyval set"
where
  "union_features [] st = Inr st"
| "union_features (f # fs) (acc, seen_ids) =
     (if feature_id f \<noteq> PNone then
        (if \<not> hashable (feature_id f) then Inl TypeError
         else if feature_id f \<notin> seen_ids
           then union_features fs (acc @ [f], insert (feature_id f) seen_ids)
           else union_features fs (acc, seen_ids))
      else union_features fs (acc, seen_ids))"

text \<open>\<open>combined["properties"].update(names)\<close>, the names kept in order of first insertion.\<close>

fun set_update :: "string list \<Rightarrow> string list \<Rightarrow> string list" where
  "set_update props [] = props"
| "set_update props (n # ns) = set_update (if n \<in> set props then props else props @ [n]) ns"

text \<open>
  The outer loop over \<open>datasets.values()\<close>. Python fixes no order for
  \<open>list(combined["properties"])\<close>; the model lists the names in order of first
  insertion, and only the set of names is meaningful.
\<close>

fun union_datasets ::
  "dataset list \<Rightarrow> string list \<times> feature list \<times> pyval set
     \<Rightarrow> error + string list \<times> feature list \<times> pyval set"
where
  "union_datasets [] st = Inr st"
| "union_datasets (d # ds) (props, acc, seen_ids) =
     (case union_features (case ds_features d of None \<Rightarrow> [] | Some fs \<Rightarrow> fs) (acc, seen_ids) of
        Inl err \<Rightarrow> Inl err
      | Inr (acc', seen') \<Rightarrow>
          union_datasets ds
            (set_update props (case ds_properties d of None \<Rightarrow> [] | Some ns \<Rightarrow> ns), acc', seen'))"

definition combine :: "(string \<times> dataset) list \<Rightarrow> error + dataset" where
  "combine datasets =
     (case union_datasets (map snd datasets) ([], [], {}) of
        Inl err \<Rightarrow> Inl err
      | Inr (props, feats, seen_ids) \<Rightarrow>
          Inr \<lparr>ds_type = Some (PStr ''FeatureCollection''),
               ds_features = Some feats,
               ds_properties = Some props\<rparr>)"

text \<open>\<open>combined["features"]\<close> of a dict built by \<open>combine\<close>.\<close>

definition features_of :: "dataset \<Rightarrow> feature list" where
  "features_of d = (case ds_features d of None \<Rightarrow> [] | Some fs \<Rightarrow> fs)"

subsection \<open>Category search\<close>

fun cat_collect ::
  "env \<Rightarrow> req \<Rightarrow> (string list \<times> string list) list \<Rightarrow> (string \<times> dataset) list
     \<Rightarrow> (string \<times> string list \<times> string list) list \<Rightarrow> event list
     \<Rightarrow> (string \<times> dataset) list \<times> (string \<times> string list \<times> string list) list \<times> event list"
where
  "cat_collect e r [] datasets missing_queries tr = (datasets, missing_queries, tr)"
| "cat_collect e r ((included_types, excluded_types) # qs) datasets missing_queries tr =
     (let full_dataset_id = make_dataset_filename_part e r included_types excluded_types;
          stored_data = load_dataset e tr full_dataset_id;
          tr1 = tr @ [LoadDataset full_dataset_id]
      in case truthy_ds stored_data of
           Some d \<Rightarrow> cat_collect e r qs (AList.update full_dataset_id d datasets) missing_queries tr1
         | None \<Rightarrow>
             cat_collect e r qs datasets
               (missing_queries @ [(full_dataset_id, included_types, excluded_types)]) tr1)"

text \<open>
  \<open>asyncio.gather\<close> over the missing queries: the calls are run one after the other
  in list order, and the first exception ends the gather.
\<close>

fun cat_gather ::
  "env \<Rightarrow> req \<Rightarrow> (string \<times> string list \<times> string list) list \<Rightarrow> event list
     \<Rightarrow> (error + pyval list option list) \<times> event list"
where
  "cat_gather e r [] tr = (Inr [], tr)"
| "cat_gather e r ((dataset_id, included_types, excluded_types) # ms) tr =
     (case single_ggl_cat_call e r included_types excluded_types tr of
        (Inl err, tr1) \<Rightarrow> (Inl err, tr1)
      | (Inr query_results, tr1) \<Rightarrow>
          (case cat_gather e r ms tr1 of
             (Inl err, tr2) \<Rightarrow> (Inl err, tr2)
           | (Inr rest, tr2) \<Rightarrow> (Inr (query_results # rest), tr2)))"

fun cat_store ::
  "env \<Rightarrow> req \<Rightarrow> ((string \<times> string list \<times> string list) \<times> pyval list option) list
     \<Rightarrow> (string \<times> dataset) list \<Rightarrow> event list \<Rightarrow> (string \<times> dataset) list \<times> event list"
where
  "cat_store e r [] datasets tr = (datasets, tr)"
| "cat_store e r (((dataset_id, included, excluded), query_results) # zs) datasets tr =
     (case truthy_results query_results of
        Some qr \<Rightarrow>
          (let (format_response, tr1) = process_and_store_to_db e r dataset_id qr tr
           in cat_store e r zs (AList.update dataset_id format_response datasets) tr1)
      | None \<Rightarrow> cat_store e r zs datasets tr)"

definition fetch_cat_google_maps_api ::
  "env \<Rightarrow> req \<Rightarrow> (string list \<times> string list) list \<Rightarrow> event list
     \<Rightarrow> (error + dataset) \<times> event list"
where
  "fetch_cat_google_maps_api e r optimized_queries tr =
     (let combined_dataset_id = make_dataset_filename e r;
          existing_combined_data = load_dataset e tr combined_dataset_id;
          tr0 = tr @ [LoadDataset combined_dataset_id]
      in case truthy_ds existing_combined_data of
           Some d \<Rightarrow> (Inr d, tr0)
         | None \<Rightarrow>
             (let (datasets, missing_queries, tr1) = cat_collect e r optimized_queries [] [] tr0
              in case cat_gather e r missing_queries tr1 of
                   (Inl err, tr2) \<Rightarrow> (Inl err, tr2)
                 | (Inr all_query_results, tr2) \<Rightarrow>
                     (let (datasets', tr3) =
                            cat_store e r (zip missing_queries all_query_results) datasets tr2
                      in case combine datasets' of
                           Inl err \<Rightarrow> (Inl err, tr3)
                         | Inr combined \<Rightarrow>
                             if features_of combined \<noteq> []
                             then (Inr combined, tr3 @ [StoreDataResp r combined combined_dataset_id])
                             else (Inr combined, tr3))))"

subsection \<open>Text search\<close>

text \<open>
  The block that resolves one atomic term-set (include-only or exclude-only) in the
  first loop: skipped when the id is already scheduled or resolved, otherwise one
  cache lookup, and the term-set is scheduled for fetching on a miss.
\<close>

definition resolve_atomic ::
  "env \<Rightarrow> req \<Rightarrow> string list \<Rightarrow> string list
     \<Rightarrow> (string \<times> dataset) list \<times> (string \<times> string list \<times> string list) list \<times> event list
     \<Rightarrow> (string \<times> dataset) list \<times> (string \<times> string list \<times> string list) list \<times> event list"
where
  "resolve_atomic e r inc exc st =
     (case st of (separte_parts_datasets, missing_queries, tr) \<Rightarrow>
        (let dataset_id = make_dataset_filename_part e r inc exc
         in if map_of missing_queries dataset_id = None
               \<and> map_of separte_parts_datasets dataset_id = None
            then (case truthy_ds (load_dataset e tr dataset_id) of
                    Some d \<Rightarrow> (AList.update dataset_id d separte_parts_datasets, missing_queries,
                               tr @ [LoadDataset dataset_id])
                  | None \<Rightarrow> (separte_parts_datasets,
                             AList.update dataset_id (inc, exc) missing_queries,
                             tr @ [LoadDataset dataset_id]))
            else st))"

fun text_collect ::
  "env \<Rightarrow> req \<Rightarrow> (string list \<times> string list) list
     \<Rightarrow> (string \<times> dataset) list \<times> (string \<times> string list \<times> string list) list \<times> event list
     \<Rightarrow> (string \<times> dataset) list \<times> (string \<times> string list \<times> string list) list \<times> event list"
where
  "text_collect e r [] st = st"
| "text_collect e r ((included_terms, excluded_terms) # qs) (separte_parts_datasets, missing_queries, tr) =
     (let partial_dataset_id = make_dataset_filename_part e r included_terms excluded_terms;
          stored_data = load_dataset e tr partial_dataset_id;
          tr1 = tr @ [LoadDataset partial_dataset_id]
      in case truthy_ds stored_data of
           Some d \<Rightarrow>
             text_collect e r qs
               (AList.update partial_dataset_id d separte_parts_datasets, missing_queries, tr1)
         | None \<Rightarrow>
             (let st1 = (separte_parts_datasets, missing_queries, tr1);
                  st2 = (if included_terms \<noteq> [] then resolve_atomic e r included_terms [] st1
                         else st1);
                  st3 = (if excluded_terms \<noteq> [] then resolve_atomic e r [] excluded_terms st2
                         else st2)
              in text_collect e r qs st3))"

text \<open>
  The loop that builds the calls: the query text is the first included term, or the
  first excluded term; indexing an empty list raises \<open>IndexError\<close>.
\<close>

fun text_queries ::
  "(string \<times> string list \<times> string list) list \<Rightarrow> error + (string \<times> string) list"
where
  "text_queries [] = Inr []"
| "text_queries ((dataset_id, included_terms, excluded_terms) # ms) =
     (case (if included_terms \<noteq> [] then included_terms else excluded_terms) of
        [] \<Rightarrow> Inl IndexError
      | text_query # _ \<Rightarrow>
          (case text_queries ms of
             Inl err \<Rightarrow> Inl err
           | Inr rest \<Rightarrow> Inr ((dataset_id, text_query) # rest)))"

text \<open>
  \<open>asyncio.gather\<close> over the calls, run one after the other in list order, and the
  comprehension that merges the one-entry dicts into \<open>all_missing_query_results\<close>.
\<close>

fun text_gather ::
  "env \<Rightarrow> req \<Rightarrow> (string \<times> string) list \<Rightarrow> (string \<times> pyval list option) list \<Rightarrow> event list
     \<Rightarrow> (error + (string \<times> pyval list option) list) \<times> event list"
where
  "text_gather e r [] all_missing_query_results tr = (Inr all_missing_query_results, tr)"
| "text_gather e r ((dataset_id, text_query) # cs) all_missing_query_results tr =
     (case single_ggl_text_call e r text_query dataset_id tr of
        (Inl err, tr1) \<Rightarrow> (Inl err, tr1)
      | (Inr (k, v), tr1) \<Rightarrow>
          text_gather e r cs (AList.update k v all_missing_query_results) tr1)"

fun text_store ::
  "env \<Rightarrow> req \<Rightarrow> (string \<times> pyval list option) list \<Rightarrow> (string \<times> dataset) list \<Rightarrow> event list
     \<Rightarrow> (string \<times> dataset) list \<times> event list"
where
  "text_store e r [] separte_parts_datasets tr = (separte_parts_datasets, tr)"
| "text_store e r ((dataset_id, query_results) # zs) separte_parts_datasets tr =
     (case truthy_results query_results of
        Some qr \<Rightarrow>
          (let (format_response, tr1) = process_and_store_to_db e r dataset_id qr tr
           in text_store e r zs (AList.update dataset_id format_response separte_parts_datasets) tr1)
      | None \<Rightarrow> text_store e r zs separte_parts_datasets tr)"

text \<open>
  The two loops that subtract the exclude dataset from the include dataset.
  \<open>ids_to_exclude.add(x)\<close> and \<open>x not in ids_to_exclude\<close> raise \<open>TypeError\<close> on a
  list or a dict.
\<close>

fun ids_to_exclude :: "feature list \<Rightarrow> pyval set \<Rightarrow> error + pyval set" where
  "ids_to_exclude [] ids = Inr ids"
| "ids_to_exclude (place # ps) ids =
     (if hashable (feature_id place) then ids_to_exclude ps (insert (feature_id place) ids)
      else Inl TypeError)"

fun filtered_places :: "feature list \<Rightarrow> pyval set \<Rightarrow> feature list \<Rightarrow> error + feature list" where
  "filtered_places [] ids acc = Inr acc"
| "filtered_places (place # ps) ids acc =
     (if hashable (feature_id place)
      then filtered_places ps ids (if feature_id place \<notin> ids then acc @ [place] else acc)
      else Inl TypeError)"

text \<open>
  The body of the reconstruction loop after both datasets have been looked up: what
  is assigned to \<open>datasets[partial_dataset_id]\<close> (\<open>None\<close>: no assignment) and whether
  it is stored. Iterating over \<open>dataset.get("features")\<close> raises \<open>TypeError\<close> when
  the key is missing.
\<close>

definition reconstruct ::
  "dataset option \<Rightarrow> dataset option \<Rightarrow> error + dataset option \<times> bool"
where
  "reconstruct include_dataset exclude_dataset =
     (case truthy_ds include_dataset of
        Some inc \<Rightarrow>
          (case truthy_ds exclude_dataset of
             Some exc \<Rightarrow>
               (case ds_features exc of
                  None \<Rightarrow> Inl TypeError
                | Some efs \<Rightarrow>
                    (case ids_to_exclude efs {} of
                       Inl err \<Rightarrow> Inl err
                     | Inr ids \<Rightarrow>
                         (case ds_features inc of
                            None \<Rightarrow> Inl TypeError
                          | Some ifs \<Rightarrow>
                              (case filtered_places ifs ids [] of
                                 Inl err \<Rightarrow> Inl err
                               | Inr [] \<Rightarrow> Inr (None, False)
                               | Inr (p # ps) \<Rightarrow>
                                   Inr (Some \<lparr>ds_type = Some (PStr ''FeatureCollection''),
                                              ds_features = Some (p # ps),
                                              ds_properties =
                                                Some (case ds_properties inc of
                                                        None \<Rightarrow> [] | Some ns \<Rightarrow> ns)\<rparr>,
                                        True)))))
           | None \<Rightarrow> Inr (Some inc, False))
      | None \<Rightarrow> Inr (Some empty_dict, False))"

text \<open>
  \<open>separte_parts_datasets.get(id)\<close> when that is truthy, otherwise a cache lookup.
\<close>

definition part_or_load ::
  "env \<Rightarrow> (string \<times> dataset) list \<Rightarrow> string \<Rightarrow> event list \<Rightarrow> dataset option \<times> event list"
where
  "part_or_load e separte_parts_datasets dataset_id tr =
     (case truthy_ds (map_of separte_parts_datasets dataset_id) of
        Some d \<Rightarrow> (Some d, tr)
      | None \<Rightarrow> (load_dataset e tr dataset_id, tr @ [LoadDataset dataset_id]))"

fun text_reconstruct ::
  "env \<Rightarrow> req \<Rightarrow> (string \<times> dataset) list \<Rightarrow> (string list \<times> string list) list
     \<Rightarrow> (string \<times> dataset) list \<Rightarrow> event list
     \<Rightarrow> (error + (string \<times> dataset) list) \<times> event list"
where
  "text_reconstruct e r separte_parts_datasets [] datasets tr = (Inr datasets, tr)"
| "text_reconstruct e r separte_parts_datasets ((included_terms, excluded_terms) # qs) datasets tr =
     (let include_dataset_id = make_dataset_filename_part e r included_terms [];
          exclude_dataset_id = make_dataset_filename_part e r [] excluded_terms;
          (include_dataset, tr1) = part_or_load e separte_parts_datasets include_dataset_id tr;
          (exclude_dataset, tr2) = part_or_load e separte_parts_datasets exclude_dataset_id tr1;
          partial_dataset_id = make_dataset_filename_part e r included_terms excluded_terms
      in case reconstruct include_dataset exclude_dataset of
           Inl err \<Rightarrow> (Inl err, tr2)
         | Inr (None, stored) \<Rightarrow> text_reconstruct e r separte_parts_datasets qs datasets tr2
         | Inr (Some d, stored) \<Rightarrow>
             text_reconstruct e r separte_parts_datasets qs
               (AList.update partial_dataset_id d datasets)
               (if stored then tr2 @ [StoreDataResp r d partial_dataset_id] else tr2))"

text \<open>
  \<open>if "properties" in feature and "id" in feature["properties"]: del feature["properties"]["id"]\<close>
\<close>

definition del_id :: "feature \<Rightarrow> feature" where
  "del_id f =
     (case f_properties f of
        None \<Rightarrow> f
      | Some p \<Rightarrow> f\<lparr>f_properties := Some (AList.delete ''id'' p)\<rparr>)"

definition fetch_text_search_ggl_maps_api ::
  "env \<Rightarrow> req \<Rightarrow> (string list \<times> string list) list \<Rightarrow> event list
     \<Rightarrow> (error + dataset) \<times> event list"
where
  "fetch_text_search_ggl_maps_api e r optimized_queries tr =
     (let combined_dataset_id = make_dataset_filename e r;
          existing_combined_data = load_dataset e tr combined_dataset_id;
          tr0 = tr @ [LoadDataset combined_dataset_id]
      in case truthy_ds existing_combined_data of
           Some d \<Rightarrow> (Inr d, tr0)
         | None \<Rightarrow>
             (let (separte_parts_datasets, missing_queries, tr1) =
                    text_collect e r optimized_queries ([], [], tr0)
              in case text_queries missing_queries of
                   Inl err \<Rightarrow> (Inl err, tr1)
                 | Inr query_tasks \<Rightarrow>
                     (case text_gather e r query_tasks [] tr1 of
                        (Inl err, tr2) \<Rightarrow> (Inl err, tr2)
                      | (Inr all_missing_query_results, tr2) \<Rightarrow>
                          (let (separte', tr3) =
                                 text_store e r all_missing_query_results separte_parts_datasets tr2
                           in case text_reconstruct e r separte' optimized_queries [] tr3 of
                                (Inl err, tr4) \<Rightarrow> (Inl err, tr4)
                              | (Inr datasets, tr4) \<Rightarrow>
                                  (case combine datasets of
                                     Inl err \<Rightarrow> (Inl err, tr4)
                                   | Inr combined \<Rightarrow>
                                       if features_of combined \<noteq> []
                                       then (Inr (if \<not> ids_and_location_only r
                                                  then combined\<lparr>ds_features :=
                                                         Some (map del_id (features_of combined))\<rparr>
                                                  else combined),
                                             tr4 @ [StoreDataResp r combined combined_dataset_id])
                                       else (Inr combined, tr4))))))"

section \<open>Result filters\<close>

text \<open>\<open>d.get(key, default)\<close> on a dict.\<close>

definition get_default :: "pydict \<Rightarrow> string \<Rightarrow> pyval \<Rightarrow> pyval" where
  "get_default d k dflt = (case map_of d k of None \<Rightarrow> dflt | Some v \<Rightarrow> v)"

text \<open>
  \<open>int(user_ratings) if user_ratings else 0\<close> inside \<open>try ... except ValueError\<close>:
  a string that is not a number gives 0, a list or a dict raises \<open>TypeError\<close>.
\<close>

definition rating_count :: "env \<Rightarrow> pyval \<Rightarrow> error + int" where
  "rating_count e user_ratings =
     (if truthy user_ratings then
        (case user_ratings of
           PStr s \<Rightarrow> Inr (case py_int e s of None \<Rightarrow> 0 | Some n \<Rightarrow> n)
         | PInt n \<Rightarrow> Inr n
         | _ \<Rightarrow> Inl TypeError)
      else Inr 0)"

text \<open>\<open>photos and len(photos) > 0\<close>: \<open>len\<close> of an integer raises \<open>TypeError\<close>.\<close>

definition has_photos :: "pyval \<Rightarrow> error + bool" where
  "has_photos photos =
     (if truthy photos then
        (case photos of
           PStr s \<Rightarrow> Inr (length s > 0)
         | PList xs \<Rightarrow> Inr (length xs > 0)
         | PDict d \<Rightarrow> Inr (length d > 0)
         | _ \<Rightarrow> Inl TypeError)
      else Inr False)"

text \<open>\<open>popularity_score > 100\<close>: only an integer can be compared with 100.\<close>

definition popular :: "pyval \<Rightarrow> error + bool" where
  "popular popularity_score =
     (case popularity_score of PInt n \<Rightarrow> Inr (n > 100) | _ \<Rightarrow> Inl TypeError)"

text \<open>
  \<open>photos = properties.get('photos', [])\<close>, replaced by
  \<open>properties.get('googleMapsLinks', {}).get("photosUri", "")\<close> when it is falsy;
  \<open>.get\<close> on a value that is not a dict raises \<open>AttributeError\<close>.
\<close>

definition photos_of :: "pydict \<Rightarrow> error + pyval" where
  "photos_of properties =
     (let photos = get_default properties ''photos'' (PList [])
      in if \<not> truthy photos
         then (case get_default properties ''googleMapsLinks'' (PDict []) of
                 PDict links \<Rightarrow> Inr (get_default links ''photosUri'' (PStr []))
               | _ \<Rightarrow> Inl AttributeError)
         else Inr photos)"

text \<open>The test of \<open>filter_ggl_data_valid_locations\<close> on one property bag.\<close>

definition valid_location :: "env \<Rightarrow> req \<Rightarrow> pydict \<Rightarrow> error + bool" where
  "valid_location e r properties =
     (if include_rating_info r then
        (let user_ratings = get_default properties ''user_ratings_total'' (PStr []);
             phone = get_default properties ''phone'' (PStr [])
         in case rating_count e user_ratings of
              Inl err \<Rightarrow> Inl err
            | Inr rc \<Rightarrow> Inr (rc > 3 \<or> (truthy phone \<and> phone \<noteq> PStr [])))
      else
        (case photos_of properties of
           Inl err \<Rightarrow> Inl err
         | Inr photos \<Rightarrow>
             (case has_photos photos of
                Inl err \<Rightarrow> Inl err
              | Inr True \<Rightarrow> Inr True
              | Inr False \<Rightarrow> popular (get_default properties ''popularity_score'' (PInt 0)))))"

fun valid_features :: "env \<Rightarrow> req \<Rightarrow> feature list \<Rightarrow> error + feature list" where
  "valid_features e r [] = Inr []"
| "valid_features e r (f # fs) =
     (case valid_location e r (case f_properties f of None \<Rightarrow> [] | Some p \<Rightarrow> p) of
        Inl err \<Rightarrow> Inl err
      | Inr keep \<Rightarrow>
          (case valid_features e r fs of
             Inl err \<Rightarrow> Inl err
           | Inr rest \<Rightarrow> Inr (if keep then f # rest else rest)))"

definition filter_ggl_data_valid_locations :: "env \<Rightarrow> req \<Rightarrow> dataset \<Rightarrow> error + dataset" where
  "filter_ggl_data_valid_locations e r d =
     (case valid_features e r (features_of d) of
        Inl err \<Rightarrow> Inl err
      | Inr filtered_features \<Rightarrow>
          Inr \<lparr>ds_type = Some (case ds_type d of None \<Rightarrow> PStr ''FeatureCollection'' | Some t \<Rightarrow> t),
               ds_features = Some filtered_features,
               ds_properties = ds_properties d\<rparr>)"

text \<open>The local list \<open>fields\<close> of \<open>select_sub_properties\<close>.\<close>

definition sub_fields :: "string list" where
  "sub_fields = [''displayName'', ''rating'', ''formattedAddress'', ''internationalPhoneNumber'',
             ''types'', ''priceLevel'', ''primaryType'', ''userRatingCount'', ''location'',
             ''name'', ''id'']"

definition sub_feature :: "feature \<Rightarrow> feature" where
  "sub_feature f =
     (let feature_properties = (case f_properties f of None \<Rightarrow> [] | Some p \<Rightarrow> p)
      in \<lparr>f_type = Some (case f_type f of None \<Rightarrow> PStr ''Feature'' | Some t \<Rightarrow> t),
          f_geometry = Some (case f_geometry f of None \<Rightarrow> PNone | Some g \<Rightarrow> g),
          f_properties =
            Some (concat (map (\<lambda>field. case map_of feature_properties field of
                                          None \<Rightarrow> [] | Some v \<Rightarrow> [(field, v)]) sub_fields))\<rparr>)"

definition select_sub_properties :: "dataset \<Rightarrow> dataset" where
  "select_sub_properties d = d\<lparr>ds_features := Some (map sub_feature (features_of d))\<rparr>"

section \<open>The coverage planner\<close>

text \<open>\<open>needle in haystack\<close> on strings.\<close>

fun contains :: "string \<Rightarrow> string \<Rightarrow> bool" where
  "contains needle [] = (needle = [])"
| "contains needle (c # cs) = (take (length needle) (c # cs) = needle \<or> contains needle cs)"

text \<open>
  \<open>query_ggl\<close>: \<open>dataset\<close> is bound by neither branch when the search type names
  none of the three modes, and \<open>return dataset\<close> raises \<open>UnboundLocalError\<close>.
\<close>

definition query_ggl :: "env \<Rightarrow> req \<Rightarrow> string \<Rightarrow> event list \<Rightarrow> (error + dataset) \<times> event list" where
  "query_ggl e r stype tr =
     (case separate_boolean_queries e (boolean_query r) of (cat_boolean, kw_boolean) \<Rightarrow>
        (let (res1, tr1) =
               (if contains ''default'' stype \<or> contains ''category_search'' stype
                then (case fetch_cat_google_maps_api e r (optimize_query_sequence e cat_boolean) tr of
                        (Inl err, t) \<Rightarrow> (Inl err, t)
                      | (Inr d, t) \<Rightarrow> (Inr (Some d), t))
                else (Inr None, tr))
         in case res1 of
              Inl err \<Rightarrow> (Inl err, tr1)
            | Inr dataset1 \<Rightarrow>
                if contains ''keyword_search'' stype
                then fetch_text_search_ggl_maps_api e r (text_search_query_sequence e kw_boolean) tr1
                else (case dataset1 of
                        None \<Rightarrow> (Inl UnboundLocalError, tr1)
                      | Some d \<Rightarrow> (Inr d, tr1))))"

text \<open>
  The local variables of \<open>fetch_ggl_nearby\<close>; \<open>None\<close> is a variable that has not
  been bound yet.
\<close>

record vars =
  v_req :: req
  v_plan_name :: string
  v_next_plan_index :: int
  v_current_plan_index :: int
  v_next_page_token :: "string option"
  v_bknd_dataset_id :: "string option"
  v_dataset :: "dataset option"

text \<open>
  The head of the loop body: the plan step is resolved into the request for
  \<open>"full data"\<close>, the bounding box is fetched otherwise, and the dataset id is made.
\<close>

definition resolve_step :: "env \<Rightarrow> vars \<Rightarrow> event list \<Rightarrow> vars \<times> event list" where
  "resolve_step e vs tr =
     (let rq = v_req vs;
          vs1 = vs\<lparr>v_next_page_token := Some (page_token rq)\<rparr>;
          (vs2, tr1) =
            (if action rq = ''full data'' then
               (case process_req_plan e tr rq of
                  (rq', pn, tok, ci, bid) \<Rightarrow>
                    (vs1\<lparr>v_req := rq', v_plan_name := pn, v_next_page_token := Some tok,
                         v_current_plan_index := ci, v_bknd_dataset_id := Some bid\<rparr>,
                     tr @ [ProcessReqPlan rq rq' pn tok ci]))
             else (vs1\<lparr>v_req := fetch_lat_lng_bounding_box e rq\<rparr>, tr))
      in (vs2\<lparr>v_bknd_dataset_id := Some (make_dataset_filename e (v_req vs2))\<rparr>, tr1))"

text \<open>
  The end of the loop body, after \<open>query_ggl\<close> has returned the dataset; the flag
  says \<open>break\<close>.
\<close>

definition after_query :: "env \<Rightarrow> vars \<Rightarrow> dataset \<Rightarrow> event list \<Rightarrow> (bool \<times> vars) \<times> event list" where
  "after_query e vs3 dataset tr2 =
     (let vs4 = vs3\<lparr>v_dataset := Some dataset\<rparr>
      in if action (v_req vs4) = ''full data'' then
           (if ds_truthy dataset then
              (if length (features_of dataset) = 0 then
                 (case rectify_plan e tr2 (v_plan_name vs4) (v_current_plan_index vs4) of
                    (npi, tok) \<Rightarrow>
                      (let tr3 = tr2 @ [RectifyPlan (v_plan_name vs4)
                                          (v_current_plan_index vs4) npi tok];
                           vs5 = vs4\<lparr>v_next_plan_index := npi,
                                     v_next_page_token := Some tok\<rparr>
                       in if npi = - 1 then ((True, vs5), tr3)
                          else ((False, vs5\<lparr>v_req := (v_req vs5)\<lparr>page_token := tok\<rparr>\<rparr>), tr3)))
               else ((True, vs4), tr2))
            else ((False, vs4), tr2))
         else if action (v_req vs4) = ''sample'' then ((True, vs4), tr2)
         else ((False, vs4), tr2))"

text \<open>One pass through the body of the \<open>for _ in range(30)\<close> loop.\<close>

definition plan_step ::
  "env \<Rightarrow> string \<Rightarrow> vars \<Rightarrow> event list \<Rightarrow> (error + bool \<times> vars) \<times> event list"
where
  "plan_step e stype vs tr =
     (case resolve_step e vs tr of
        (vs3, tr1) \<Rightarrow>
          (case query_ggl e (v_req vs3) stype tr1 of
             (Inl err, tr2) \<Rightarrow> (Inl err, tr2)
           | (Inr dataset, tr2) \<Rightarrow>
               (case after_query e vs3 dataset tr2 of (res, tr3) \<Rightarrow> (Inr res, tr3))))"

fun plan_loop ::
  "env \<Rightarrow> nat \<Rightarrow> string \<Rightarrow> vars \<Rightarrow> event list \<Rightarrow> (error + vars) \<times> event list"
where
  "plan_loop e 0 stype vs tr = (Inr vs, tr)"
| "plan_loop e (Suc n) stype vs tr =
     (case plan_step e stype vs tr of
        (Inl err, tr1) \<Rightarrow> (Inl err, tr1)
      | (Inr (brk, vs'), tr1) \<Rightarrow> if brk then (Inr vs', tr1) else plan_loop e n stype vs' tr1)"

text \<open>
  The filter that drops the records added in case of error.
  \<open>feature["properties"]\<close> raises \<open>KeyError\<close> when the key is missing.
\<close>

fun strip_sentinels :: "feature list \<Rightarrow> error + feature list" where
  "strip_sentinels [] = Inr []"
| "strip_sentinels (f # fs) =
     (case f_properties f of
        None \<Rightarrow> Inl KeyError
      | Some p \<Rightarrow>
          (case strip_sentinels fs of
             Inl err \<Rightarrow> Inl err
           | Inr rest \<Rightarrow> Inr (if feature_id f \<noteq> PStr ''n/a'' then f # rest else rest)))"

text \<open>
  After the loop: \<open>rectify_plan\<close> is asked once more when a \<open>"full data"\<close> dataset
  has fewer than 20 features.
\<close>

definition rectify_if_small ::
  "env \<Rightarrow> vars \<Rightarrow> dataset \<Rightarrow> string \<Rightarrow> event list \<Rightarrow> int \<times> string \<times> event list"
where
  "rectify_if_small e vs dataset next_page_token0 tr =
     (if action (v_req vs) = ''full data'' \<and> ds_truthy dataset
         \<and> length (features_of dataset) < 20
      then (case rectify_plan e tr (v_plan_name vs) (v_current_plan_index vs) of
              (npi, tok) \<Rightarrow>
                (npi, tok, tr @ [RectifyPlan (v_plan_name vs) (v_current_plan_index vs) npi tok]))
      else (v_next_plan_index vs, next_page_token0, tr))"

text \<open>The step is marked with \<open>has_features\<close>, computed on the filtered dataset.\<close>

definition mark_result :: "vars \<Rightarrow> dataset \<Rightarrow> event list \<Rightarrow> event list" where
  "mark_result vs dataset1 tr1 =
     (if action (v_req vs) = ''full data'' \<and> ds_truthy dataset1
      then tr1 @ [MarkPlanResult (v_plan_name vs) (v_current_plan_index vs)
                    (length (features_of dataset1) > 0)]
      else tr1)"

text \<open>The two result filters at the end.\<close>

definition final_filters :: "env \<Rightarrow> req \<Rightarrow> dataset \<Rightarrow> error + dataset" where
  "final_filters e rq dataset1 =
     (case (if action rq = ''full data'' then filter_ggl_data_valid_locations e rq dataset1
            else Inr dataset1) of
        Inl err \<Rightarrow> Inl err
      | Inr dataset2 \<Rightarrow>
          Inr (if include_only_sub_properties rq then select_sub_properties dataset2 else dataset2))"

text \<open>The part of \<open>fetch_ggl_nearby\<close> after the loop.\<close>

definition fetch_tail ::
  "env \<Rightarrow> vars \<Rightarrow> event list
     \<Rightarrow> (error + dataset \<times> string \<times> string \<times> string \<times> int) \<times> event list"
where
  "fetch_tail e vs tr =
     (case (v_dataset vs, v_bknd_dataset_id vs, v_next_page_token vs) of
        (Some dataset, Some bknd_dataset_id, Some next_page_token0) \<Rightarrow>
          (case rectify_if_small e vs dataset next_page_token0 tr of
             (next_plan_index0, next_page_token, tr1) \<Rightarrow>
               (let current_plan_index = v_current_plan_index vs;
                    next_plan_index =
                      (if current_plan_index + 1 > next_plan_index0 then current_plan_index + 1
                       else next_plan_index0)
                in case strip_sentinels (features_of dataset) of
                     Inl err \<Rightarrow> (Inl err, tr1)
                   | Inr filtered_features \<Rightarrow>
                       (let dataset1 = dataset\<lparr>ds_features := Some filtered_features\<rparr>;
                            tr2 = mark_result vs dataset1 tr1
                        in case final_filters e (v_req vs) dataset1 of
                             Inl err \<Rightarrow> (Inl err, tr2)
                           | Inr dataset3 \<Rightarrow>
                               (Inr (dataset3, bknd_dataset_id, next_page_token, v_plan_name vs,
                                     next_plan_index),
                                tr2))))
      | _ \<Rightarrow> (Inl UnboundLocalError, tr))"

text \<open>The local variables of \<open>fetch_ggl_nearby\<close> before the loop.\<close>

definition vars0 :: "req \<Rightarrow> vars" where
  "vars0 r = \<lparr>v_req = r, v_plan_name = [], v_next_plan_index = 0, v_current_plan_index = 0,
              v_next_page_token = None, v_bknd_dataset_id = None, v_dataset = None\<rparr>"

definition fetch_ggl_nearby ::
  "env \<Rightarrow> req \<Rightarrow> event list
     \<Rightarrow> (error + dataset \<times> string \<times> string \<times> string \<times> int) \<times> event list"
where
  "fetch_ggl_nearby e r tr =
     (case plan_loop e 30 (search_type r) (vars0 r) tr of
        (Inl err, tr1) \<Rightarrow> (Inl err, tr1)
      | (Inr vs, tr1) \<Rightarrow> fetch_tail e vs tr1)"

section \<open>Observations on a trace\<close>

text \<open>How often a request was posted to the provider.\<close>

definition attempts :: "http_request \<Rightarrow> event list \<Rightarrow> nat" where
  "attempts rq tr = length (filter (\<lambda>ev. ev = HttpPost rq) tr)"

text \<open>The events of the provider and of the storage module, as opposed to the plan module.\<close>

fun io_event :: "event \<Rightarrow> bool" where
  "io_event (ProcessReqPlan rq rq' pn tok ci) = False"
| "io_event (RectifyPlan pn ci npi tok) = False"
| "io_event (MarkPlanResult pn ci b) = False"
| "io_event ev = True"

definition extends :: "event list \<Rightarrow> event list \<Rightarrow> bool" where
  "extends tr tr' = (\<exists>new. tr' = tr @ new \<and> list_all io_event new)"

text \<open>
  The plan-step indices that \<open>process_req_plan\<close> returned and the next indices that
  \<open>rectify_plan\<close> returned, in the order of the calls; the last of each, or 0 when
  there was no call (the initial value of both variables).
\<close>

fun steps :: "event list \<Rightarrow> int list" where
  "steps [] = []"
| "steps (ProcessReqPlan rq rq' pn tok ci # tr) = ci # steps tr"
| "steps (ev # tr) = steps tr"

fun rectified :: "event list \<Rightarrow> int list" where
  "rectified [] = []"
| "rectified (RectifyPlan pn ci npi tok # tr) = npi # rectified tr"
| "rectified (ev # tr) = rectified tr"

definition last_or :: "int \<Rightarrow> int list \<Rightarrow> int" where
  "last_or dflt xs = (if xs = [] then dflt else last xs)"

section \<open>Concrete collaborators and requests\<close>

definition conf0 :: conf where
  "conf0 = \<lparr>test_mode = False, api_key = ''k'', legacy_nearby_search_url = ''legacy'',
            place_details_url = ''details/'', search_text_url = ''text'',
            nearby_search_url = ''nearby'', ggl_details_fields = ''d'',
            ggl_nearby_pro_sku_fields = ''p'', ggl_nearby_enterprise_sku_fields = ''e'',
            ggl_txt_search_ids_only_essential = ''i''\<rparr>"

text \<open>A converter that turns every place into a point feature carrying the place as its properties.\<close>

definition boxmap0 :: "pyval list \<Rightarrow> rat \<Rightarrow> dataset" where
  "boxmap0 places rad =
     \<lparr>ds_type = Some (PStr ''FeatureCollection''),
      ds_features = Some (map (\<lambda>p. \<lparr>f_type = Some (PStr ''Feature''), f_geometry = Some PNone,
                                     f_properties = Some (case p of PDict d \<Rightarrow> d | _ \<Rightarrow> [])\<rparr>) places),
      ds_properties = Some [''name'', ''id'']\<rparr>"

text \<open>
  A provider that answers 429 to every call, an empty cache, and a plan whose
  rectification always offers the step after the next.
\<close>

definition env0 :: env where
  "env0 =
     \<lparr>CONF = conf0,
      py_str = (\<lambda>x. str_int (floor x)),
      py_int = (\<lambda>s. None),
      http_post = (\<lambda>t q. \<lparr>p_status = 429, p_places = None\<rparr>),
      http_get = (\<lambda>t u h. \<lparr>g_status = 429, g_json = PNone\<rparr>),
      get_test_data_for_post_call = (\<lambda>q. []),
      get_test_data_for_get_call = (\<lambda>u h. PNone),
      load_place_details = (\<lambda>t p. PNone),
      load_dataset = (\<lambda>t i. None),
      make_dataset_filename = (\<lambda>r. ''all''),
      make_dataset_filename_part = (\<lambda>r inc exc. join '','' inc @ ''|'' @ join '','' exc),
      new_ggl_to_boxmap = boxmap0,
      convert_strings_to_ints = (\<lambda>d. d),
      separate_boolean_queries = (\<lambda>q. (q, q)),
      optimize_query_sequence = (\<lambda>q. [([q], [])]),
      text_search_query_sequence = (\<lambda>q. [([q], [])]),
      process_req_plan = (\<lambda>t q. (q\<lparr>action := ''full data''\<rparr>, ''plan'', ''tok'', 0, ''bid'')),
      rectify_plan = (\<lambda>t n i. (i + 2, ''next'')),
      fetch_lat_lng_bounding_box = (\<lambda>q. q)\<rparr>"

definition req0 :: req where
  "req0 = \<lparr>lat = 24, lng = 46, radius = 1500, boolean_query = ''cafe'', action = ''full data'',
           search_type = ''category_search'', page_token = [],
           ids_and_location_only = False, include_rating_info = False,
           include_only_sub_properties = False\<rparr>"

definition rq0 :: http_request where
  "rq0 = \<lparr>url = ''nearby'',
          headers = [(''Content-Type'', ''application/json''), (''X-Goog-Api-Key'', ''k''),
                     (''X-Goog-FieldMask'', ''p'')],
          data = Some (NearbyBody [''cafe''] [] 24 46 1500)\<rparr>"

definition legacy0 :: http_request where
  "legacy0 = \<lparr>url = ''legacy?location=24,46&radius=1500&key=k&type=cafe'',
              headers = [(''Content-Type'', ''application/json'')],
              data = None\<rparr>"

text \<open>A cached dataset with one feature, and a cache that holds it under one id.\<close>

definition featA :: feature where
  "featA = \<lparr>f_type = Some (PStr ''Feature''), f_geometry = Some PNone,
            f_properties = Some [(''id'', PStr ''x''), (''name'', PStr ''A'')]\<rparr>"

definition dsA :: dataset where
  "dsA = \<lparr>ds_type = Some (PStr ''FeatureCollection''), ds_features = Some [featA],
          ds_properties = Some [''id'', ''name'']\<rparr>"

text \<open>
  A provider that answers 200 with no places to every call, and a cache that holds
  \<open>dsA\<close> as the include-only dataset of the term \<open>a\<close>.
\<close>

definition env_text :: env where
  "env_text = env0\<lparr>http_post := (\<lambda>t q. \<lparr>p_status = 200, p_places = Some []\<rparr>),
                   load_dataset := (\<lambda>t i. if i = ''a|'' then Some dsA else None)\<rparr>"

text \<open>A cache that holds \<open>dsA\<close> under the combined fingerprint.\<close>

definition env_cached :: env where
  "env_cached = env0\<lparr>load_dataset := (\<lambda>t i. if i = ''all'' then Some dsA else None)\<rparr>"

text \<open>
  A provider whose text search finds one place and whose details endpoint answers
  429 to every call.
\<close>

definition env_details :: env where
  "env_details =
     env0\<lparr>http_post := (\<lambda>t q. \<lparr>p_status = 200, p_places = Some [PDict [(''id'', PStr ''p1'')]]\<rparr>)\<rparr>"

text \<open>The ids of the datasets handed to \<open>store_data_resp\<close>, in the order of the calls.\<close>

fun stored_ids :: "event list \<Rightarrow> string list" where
  "stored_ids [] = []"
| "stored_ids (StoreDataResp r d i # tr) = i # stored_ids tr"
| "stored_ids (ev # tr) = stored_ids tr"

text \<open>
  Two partial datasets for the union step: the second one holds a feature without
  an id, a second feature with the id \<open>x\<close>, and a feature with the id \<open>y\<close>.
\<close>

definition featN :: feature where
  "featN = \<lparr>f_type = Some (PStr ''Feature''), f_geometry = Some PNone,
            f_properties = Some [(''name'', PStr ''N'')]\<rparr>"

definition featA2 :: feature where
  "featA2 = \<lparr>f_type = Some (PStr ''Feature''), f_geometry = Some PNone,
             f_properties = Some [(''id'', PStr ''x''), (''name'', PStr ''A2'')]\<rparr>"

definition featB :: feature where
  "featB = \<lparr>f_type = Some (PStr ''Feature''), f_geometry = Some PNone,
            f_properties = Some [(''id'', PStr ''y''), (''name'', PStr ''B'')]\<rparr>"

definition dsB :: dataset where
  "dsB = \<lparr>ds_type = Some (PStr ''FeatureCollection''), ds_features = Some [featN, featA2, featB],
          ds_properties = Some [''name'', ''rating'']\<rparr>"

definition datasets0 :: "(string \<times> dataset) list" where
  "datasets0 = [(''p1'', dsA), (''p2'', dsB)]"

definition combined0 :: dataset where
  "combined0 = \<lparr>ds_type = Some (PStr ''FeatureCollection''), ds_features = Some [featA, featB],
                ds_properties = Some [''id'', ''name'', ''rating'']\<rparr>"

text \<open>
  An include-only dataset with the features \<open>x\<close> and \<open>y\<close>, the atomic datasets of a
  tuple whose exclude-only dataset is \<open>dsA\<close>, and the partial dataset they give.
\<close>

definition dsAB :: dataset where
  "dsAB = \<lparr>ds_type = Some (PStr ''FeatureCollection''), ds_features = Some [featA, featB],
           ds_properties = Some [''id'', ''name'']\<rparr>"

definition parts0 :: "(string \<times> dataset) list" where
  "parts0 = [(''a|'', dsAB), (''|b'', dsA)]"

definition partial0 :: dataset where
  "partial0 = \<lparr>ds_type = Some (PStr ''FeatureCollection''), ds_features = Some [featB],
               ds_properties = Some [''id'', ''name'']\<rparr>"

text \<open>
  What a run against the failing provider produces: the sentinel as a feature, the
  dataset of 20 sentinels stored for the term, the combined dataset, the events of
  the exhausted call, and the trace of the whole request.
\<close>

definition sentinel_feature :: feature where
  "sentinel_feature =
     \<lparr>f_type = Some (PStr ''Feature''), f_geometry = Some PNone,
      f_properties = Some [(''name'', PStr ''Faild to retreive data 429''), (''id'', PStr ''n/a'')]\<rparr>"

definition sentinel_batch :: dataset where
  "sentinel_batch =
     \<lparr>ds_type = Some (PStr ''FeatureCollection''),
      ds_features = Some (replicate 20 sentinel_feature),
      ds_properties = Some [''name'', ''id'']\<rparr>"

definition sentinel_combined :: dataset where
  "sentinel_combined =
     \<lparr>ds_type = Some (PStr ''FeatureCollection''), ds_features = Some [sentinel_feature],
      ds_properties = Some [''name'', ''id'']\<rparr>"

definition empty_result :: dataset where
  "empty_result =
     \<lparr>ds_type = Some (PStr ''FeatureCollection''), ds_features = Some [],
      ds_properties = Some [''name'', ''id'']\<rparr>"

definition exhausted_trace :: "event list" where
  "exhausted_trace =
     [Sleep MIN_DELAY, HttpPost rq0, Sleep (MIN_DELAY * 2),
      Sleep MIN_DELAY, HttpPost rq0, Sleep (MIN_DELAY * 4),
      Sleep MIN_DELAY, HttpPost rq0,
      Sleep MIN_DELAY, HttpPost legacy0, Sleep (MIN_DELAY * 4),
      Sleep MIN_DELAY, HttpPost legacy0]"

definition nearby_trace :: "event list" where
  "nearby_trace =
     [ProcessReqPlan req0 req0 ''plan'' ''tok'' 0, LoadDataset ''all'', LoadDataset ''cafe|'']
     @ exhausted_trace
     @ [StoreDataResp req0 sentinel_batch ''cafe|'', StoreDataResp req0 sentinel_combined ''all'',
        RectifyPlan ''plan'' 0 2 ''next'', MarkPlanResult ''plan'' 0 False]"

text \<open>
  A cache that holds, under the combined fingerprint, a dataset with one real feature
  and one sentinel, and a request in \<open>"sample"\<close> mode.
\<close>

definition ds_mixed :: dataset where
  "ds_mixed = \<lparr>ds_type = Some (PStr ''FeatureCollection''),
               ds_features = Some [featA, sentinel_feature],
               ds_properties = Some [''name'', ''id'']\<rparr>"

definition env_mixed :: env where
  "env_mixed = env0\<lparr>load_dataset := (\<lambda>t i. if i = ''all'' then Some ds_mixed else None)\<rparr>"

definition req_sample :: req where
  "req_sample = req0\<lparr>action := ''sample''\<rparr>"

text \<open>
  What the loop keeps true in \<open>"full data"\<close> mode: \<open>next_plan_index\<close> is the last
  answer of \<open>rectify_plan\<close>, \<open>current_plan_index\<close> the last step of
  \<open>process_req_plan\<close>, both 0 before the first call.
\<close>

definition plan_inv :: "vars \<Rightarrow> event list \<Rightarrow> bool" where
  "plan_inv vs tr =
     (v_next_plan_index vs = last_or 0 (rectified tr)
      \<and> v_current_plan_index vs = last_or 0 (steps tr)
      \<and> action (v_req vs) = ''full data'')"

text \<open>
  A keyword search in \<open>"sample"\<close> mode, the request and the legacy request of its
  one provider call, and the sentinel feature without its \<open>id\<close>.
\<close>

definition req_kw :: req where
  "req_kw = req0\<lparr>action := ''sample'', search_type := ''keyword_search''\<rparr>"

definition rq_kw :: http_request where
  "rq_kw = \<lparr>url = ''text'',
            headers = [(''Content-Type'', ''application/json''), (''X-Goog-Api-Key'', ''k''),
                       (''X-Goog-FieldMask'', ''p,nextPageToken'')],
            data = Some (TextBody ''cafe'' 24 46 1500)\<rparr>"

definition legacy_kw :: http_request where
  "legacy_kw = \<lparr>url = ''legacy?query=cafe&location=24,46&radius=1500&key=k'',
                headers = [(''Content-Type'', ''application/json'')],
                data = None\<rparr>"

definition placeholder_feature :: feature where
  "placeholder_feature =
     \<lparr>f_type = Some (PStr ''Feature''), f_geometry = Some PNone,
      f_properties = Some [(''name'', PStr ''Faild to retreive data 429'')]\<rparr>"

section \<open>The retry state machine\<close>

declare post_loop.simps [simp del] get_loop.simps [simp del]

lemma post_loop_exhausted:
  assumes fail: "\<And>t q. p_status (http_post e t q) \<noteq> 200"
    and leg: "build_compatible_legacy_payload e rq = Inr rq'"
  shows "post_loop e rq 0 False tr =
     (Inr (Some (replicate 20 (sentinel (p_status (http_post e
          (tr @ [Sleep MIN_DELAY, HttpPost rq, Sleep (MIN_DELAY * 2),
                 Sleep MIN_DELAY, HttpPost rq, Sleep (MIN_DELAY * 4),
                 Sleep MIN_DELAY, HttpPost rq,
                 Sleep MIN_DELAY, HttpPost rq', Sleep (MIN_DELAY * 4),
                 Sleep MIN_DELAY]) rq'))))),
      tr @ [Sleep MIN_DELAY, HttpPost rq, Sleep (MIN_DELAY * 2),
            Sleep MIN_DELAY, HttpPost rq, Sleep (MIN_DELAY * 4),
            Sleep MIN_DELAY, HttpPost rq,
            Sleep MIN_DELAY, HttpPost rq', Sleep (MIN_DELAY * 4),
            Sleep MIN_DELAY, HttpPost rq'])"
  apply (subst post_loop.simps)
  apply (simp add: max_retries_def Let_def fail leg)
  apply (subst post_loop.simps)
  apply (simp add: max_retries_def Let_def fail leg)
  apply (subst post_loop.simps)
  apply (simp add: max_retries_def Let_def fail leg)
  apply (subst post_loop.simps)
  apply (simp add: max_retries_def Let_def fail leg)
  apply (subst post_loop.simps)
  apply (simp add: max_retries_def Let_def fail leg)
  done

lemma get_loop_exhausted:
  assumes fail: "\<And>t. g_status (http_get e t u h) \<noteq> 200"
  shows "get_loop e u h 0 tr =
     (PDict [],
      tr @ [Sleep MIN_DELAY, HttpGet u h, Sleep (MIN_DELAY * 2),
            Sleep MIN_DELAY, HttpGet u h, Sleep (MIN_DELAY * 4),
            Sleep MIN_DELAY, HttpGet u h])"
  apply (subst get_loop.simps)
  apply (simp add: max_retries_def Let_def fail)
  apply (subst get_loop.simps)
  apply (simp add: max_retries_def Let_def fail)
  apply (subst get_loop.simps)
  apply (simp add: max_retries_def Let_def fail)
  done

lemma legacy_differs:
  "build_compatible_legacy_payload e rq = Inr rq' \<Longrightarrow> rq' \<noteq> rq"
  by (auto simp: build_compatible_legacy_payload_def legacy_request_def
           split: option.splits body.splits)

lemma legacy0_eq: "build_compatible_legacy_payload env0 rq0 = Inr legacy0"
  by (simp add: build_compatible_legacy_payload_def env0_def rq0_def legacy0_def
        legacy_request_def conf0_def str_int_def)

lemma env0_fails: "p_status (http_post env0 t q) \<noteq> 200"
  by (simp add: env0_def)

lemma env0_live: "\<not> test_mode (CONF env0)"
  by (simp add: env0_def conf0_def)

text \<open>
  Claim C1, as the code has it. Against a provider that answers every attempt with a
  status other than 200, \<open>make_post_api_call\<close> posts the primary request three
  times, switches to the legacy request once, and posts the legacy request twice (the
  counter is set back from 3 to 1, not to 0). The backoff slept after the first and
  the second primary attempt is \<open>MIN_DELAY * 2^1\<close> and \<open>MIN_DELAY * 2^2\<close>; no
  backoff follows the third primary attempt; the backoff after the first legacy
  attempt is \<open>MIN_DELAY * 2^2\<close>. \<open>MIN_DELAY\<close> is slept before every attempt.
\<close>

theorem retry_sequence:
  assumes live: "\<not> test_mode (CONF e)"
    and fail: "\<forall>t q. p_status (http_post e t q) \<noteq> 200"
    and leg: "build_compatible_legacy_payload e rq = Inr rq'"
  shows "snd (make_post_api_call e rq tr) =
           tr @ [Sleep MIN_DELAY, HttpPost rq, Sleep (MIN_DELAY * 2 ^ 1),
                 Sleep MIN_DELAY, HttpPost rq, Sleep (MIN_DELAY * 2 ^ 2),
                 Sleep MIN_DELAY, HttpPost rq,
                 Sleep MIN_DELAY, HttpPost rq', Sleep (MIN_DELAY * 2 ^ 2),
                 Sleep MIN_DELAY, HttpPost rq']
         \<and> attempts rq (snd (make_post_api_call e rq [])) = 3
         \<and> attempts rq' (snd (make_post_api_call e rq [])) = 2"
proof -
  have ne: "rq' \<noteq> rq" "rq \<noteq> rq'"
    using legacy_differs [OF leg] by auto
  have run: "\<And>tr. snd (make_post_api_call e rq tr) =
           tr @ [Sleep MIN_DELAY, HttpPost rq, Sleep (MIN_DELAY * 2),
                 Sleep MIN_DELAY, HttpPost rq, Sleep (MIN_DELAY * 4),
                 Sleep MIN_DELAY, HttpPost rq,
                 Sleep MIN_DELAY, HttpPost rq', Sleep (MIN_DELAY * 4),
                 Sleep MIN_DELAY, HttpPost rq']"
    using live fail post_loop_exhausted [of e rq rq', OF _ leg]
    by (simp add: make_post_api_call_def)
  show ?thesis
    by (simp add: run attempts_def ne)
qed

theorem retry_sequence_witness:
  "\<not> test_mode (CONF env0) \<and> (\<forall>t q. p_status (http_post env0 t q) \<noteq> 200)
   \<and> build_compatible_legacy_payload env0 rq0 = Inr legacy0
   \<and> attempts rq0 (snd (make_post_api_call env0 rq0 [])) = 3
   \<and> attempts legacy0 (snd (make_post_api_call env0 rq0 [])) = 2"
  using retry_sequence [of env0 rq0 legacy0 "[]"] env0_fails env0_live legacy0_eq
  by blast

text \<open>
  Claim C1 as stated fails: against the provider that always answers 429 the legacy
  request is posted twice, not three times.
\<close>

theorem three_legacy_attempts_counterexample:
  "attempts legacy0 (snd (make_post_api_call env0 rq0 [])) = 2
   \<and> attempts legacy0 (snd (make_post_api_call env0 rq0 [])) \<noteq> 3"
proof -
  have "snd (make_post_api_call env0 rq0 []) =
          [Sleep MIN_DELAY, HttpPost rq0, Sleep (MIN_DELAY * 2),
           Sleep MIN_DELAY, HttpPost rq0, Sleep (MIN_DELAY * 4),
           Sleep MIN_DELAY, HttpPost rq0,
           Sleep MIN_DELAY, HttpPost legacy0, Sleep (MIN_DELAY * 4),
           Sleep MIN_DELAY, HttpPost legacy0]"
    using post_loop_exhausted [of env0 rq0 legacy0 "[]", OF env0_fails legacy0_eq] env0_live
    by (simp add: make_post_api_call_def)
  moreover have "rq0 \<noteq> legacy0"
    by (simp add: rq0_def legacy0_def)
  ultimately show ?thesis
    by (simp add: attempts_def)
qed

text \<open>
  Claim C6. When the primary and the legacy attempts are all answered with a status
  other than 200, \<open>make_post_api_call\<close> returns, without raising, a list of exactly
  20 equal sentinel records whose \<open>id\<close> is \<open>"n/a"\<close> and whose \<open>name\<close> is the
  placeholder text followed by the last status.
\<close>

theorem exhausted_returns_sentinels:
  assumes live: "\<not> test_mode (CONF e)"
    and fail: "\<forall>t q. p_status (http_post e t q) \<noteq> 200"
    and leg: "build_compatible_legacy_payload e rq = Inr rq'"
  shows "\<exists>st. st \<noteq> 200
           \<and> fst (make_post_api_call e rq tr) = Inr (Some (replicate 20 (sentinel st)))
           \<and> length (replicate 20 (sentinel st)) = 20
           \<and> py_get (sentinel st) ''id'' = Inr (PStr ''n/a'')
           \<and> py_get (sentinel st) ''name'' = Inr (PStr (''Faild to retreive data '' @ str_int st))"
proof -
  let ?st = "p_status (http_post e
          (tr @ [Sleep MIN_DELAY, HttpPost rq, Sleep (MIN_DELAY * 2),
                 Sleep MIN_DELAY, HttpPost rq, Sleep (MIN_DELAY * 4),
                 Sleep MIN_DELAY, HttpPost rq,
                 Sleep MIN_DELAY, HttpPost rq', Sleep (MIN_DELAY * 4),
                 Sleep MIN_DELAY]) rq')"
  have "fst (make_post_api_call e rq tr) = Inr (Some (replicate 20 (sentinel ?st)))"
    using live fail post_loop_exhausted [of e rq rq', OF _ leg]
    by (simp add: make_post_api_call_def)
  moreover have "?st \<noteq> 200" using fail by blast
  ultimately show ?thesis
    by (intro exI [of _ ?st]) (simp add: sentinel_def py_get_def)
qed

theorem exhausted_returns_sentinels_witness:
  "\<not> test_mode (CONF env0) \<and> (\<forall>t q. p_status (http_post env0 t q) \<noteq> 200)
   \<and> build_compatible_legacy_payload env0 rq0 = Inr legacy0
   \<and> (\<exists>st. fst (make_post_api_call env0 rq0 []) = Inr (Some (replicate 20 (sentinel st))))"
  using exhausted_returns_sentinels [of env0 rq0 legacy0 "[]"] env0_fails env0_live legacy0_eq
  by blast

section \<open>Place details\<close>

lemma make_get_exhausted:
  assumes live: "\<not> test_mode (CONF e)"
    and fail: "\<forall>t u h. g_status (http_get e t u h) \<noteq> 200"
  shows "make_get_api_call e u h tr =
     (PDict [],
      tr @ [Sleep MIN_DELAY, HttpGet u h, Sleep (MIN_DELAY * 2),
            Sleep MIN_DELAY, HttpGet u h, Sleep (MIN_DELAY * 4),
            Sleep MIN_DELAY, HttpGet u h])"
  using live fail get_loop_exhausted [of e u h tr]
  by (simp add: make_get_api_call_def)

lemma details_loop_failing:
  assumes live: "\<not> test_mode (CONF e)"
    and fail: "\<forall>t u h. g_status (http_get e t u h) \<noteq> 200"
  shows "details_loop e places acc tr = (Inr res, tr') \<Longrightarrow>
         \<exists>new. res = acc @ new \<and> length new = length places \<and>
           (\<forall>i<length places. \<forall>pid.
              py_get (places ! i) ''id'' = Inr (PStr pid)
              \<and> (\<forall>t. \<not> truthy (load_place_details e t pid)) \<longrightarrow> new ! i = PDict [])"
proof (induction places arbitrary: acc tr)
  case Nil
  then show ?case by simp
next
  case (Cons place rest)
  from Cons.prems obtain pid where pid: "py_get place ''id'' = Inr (PStr pid)"
    by (auto split: sum.splits pyval.splits)
  let ?cached = "load_place_details e tr pid"
  let ?x = "if truthy ?cached then ?cached else PDict []"
  obtain tr1 where step: "details_loop e rest (acc @ [?x]) tr1 = (Inr res, tr')"
    using Cons.prems pid make_get_exhausted [OF live fail]
    by (auto simp: Let_def build_details_search_payload_def split: if_splits)
  from Cons.IH [OF step] obtain new where new: "res = (acc @ [?x]) @ new"
    "length new = length rest"
    "\<forall>i<length rest. \<forall>pid. py_get (rest ! i) ''id'' = Inr (PStr pid)
              \<and> (\<forall>t. \<not> truthy (load_place_details e t pid)) \<longrightarrow> new ! i = PDict []"
    by blast
  have "\<forall>i<length (place # rest). \<forall>p. py_get ((place # rest) ! i) ''id'' = Inr (PStr p)
              \<and> (\<forall>t. \<not> truthy (load_place_details e t p)) \<longrightarrow> (?x # new) ! i = PDict []"
  proof (intro allI impI)
    fix i p
    assume i: "i < length (place # rest)"
      and p: "py_get ((place # rest) ! i) ''id'' = Inr (PStr p)
              \<and> (\<forall>t. \<not> truthy (load_place_details e t p))"
    show "(?x # new) ! i = PDict []"
    proof (cases i)
      case 0
      with p pid show ?thesis by auto
    next
      case (Suc j)
      with i p new(3) show ?thesis by auto
    qed
  qed
  with new(1,2) show ?case
    by (intro exI [of _ "?x # new"]) simp
qed

text \<open>
  Claim C9. When every details call is answered with a status other than 200,
  \<open>make_get_api_call\<close> makes its three attempts and returns the empty dict: no
  sentinel, no legacy call, no exception. \<open>single_ggl_text_call\<close> with
  \<open>ids_and_location_only\<close> appends one value for every place, and for a place
  whose details are not in the details cache that value is the empty dict.
\<close>

theorem failed_details_contribute_empty:
  assumes live: "\<not> test_mode (CONF e)"
    and fail: "\<forall>t u h. g_status (http_get e t u h) \<noteq> 200"
    and flag: "ids_and_location_only r"
    and posted: "fst (make_post_api_call e (build_text_search_payload e r text_query) tr) = Inr (Some places)"
    and ret: "single_ggl_text_call e r text_query ident tr = (Inr (k, results), tr')"
  shows "make_get_api_call e u h tr0 =
           (PDict [],
            tr0 @ [Sleep MIN_DELAY, HttpGet u h, Sleep (MIN_DELAY * 2 ^ 1),
                   Sleep MIN_DELAY, HttpGet u h, Sleep (MIN_DELAY * 2 ^ 2),
                   Sleep MIN_DELAY, HttpGet u h])
         \<and> k = ident
         \<and> (\<exists>rs. results = Some rs \<and> length rs = length places \<and>
               (\<forall>i<length places. \<forall>pid.
                  py_get (places ! i) ''id'' = Inr (PStr pid)
                  \<and> (\<forall>t. \<not> truthy (load_place_details e t pid)) \<longrightarrow> rs ! i = PDict []))"
proof -
  obtain tr1 where p: "make_post_api_call e (build_text_search_payload e r text_query) tr
                        = (Inr (Some places), tr1)"
    using posted by (cases "make_post_api_call e (build_text_search_payload e r text_query) tr") auto
  from ret p flag obtain rs where rs: "details_loop e places [] tr1 = (Inr rs, tr')"
    "results = Some rs" "k = ident"
    by (auto simp: single_ggl_text_call_def split: prod.splits sum.splits)
  from details_loop_failing [OF live fail rs(1)] rs(2,3) make_get_exhausted [OF live fail, of u h tr0]
  show ?thesis by simp
qed

lemma details_run:
  "single_ggl_text_call env_details (req0\<lparr>ids_and_location_only := True\<rparr>) ''q'' ''ident'' []
     = (Inr (''ident'', Some [PDict []]),
        [Sleep MIN_DELAY,
         HttpPost (build_text_search_payload env_details (req0\<lparr>ids_and_location_only := True\<rparr>) ''q''),
         LoadPlaceDetails ''p1'',
         Sleep MIN_DELAY, HttpGet ''details/p1'' (snd (build_details_search_payload env_details ''p1'')),
         Sleep (MIN_DELAY * 2),
         Sleep MIN_DELAY, HttpGet ''details/p1'' (snd (build_details_search_payload env_details ''p1'')),
         Sleep (MIN_DELAY * 4),
         Sleep MIN_DELAY, HttpGet ''details/p1'' (snd (build_details_search_payload env_details ''p1''))])"
proof -
  have live: "\<not> test_mode (CONF env_details)"
    by (simp add: env_details_def env0_def conf0_def)
  have fail: "\<forall>t u h. g_status (http_get env_details t u h) \<noteq> 200"
    by (simp add: env_details_def env0_def)
  have post: "\<And>rq tr. make_post_api_call env_details rq tr
      = (Inr (Some [PDict [(''id'', PStr ''p1'')]]), tr @ [Sleep MIN_DELAY, HttpPost rq])"
    using live by (simp add: make_post_api_call_def post_loop.simps max_retries_def Let_def env_details_def)
  have nocache: "\<And>t p. load_place_details env_details t p = PNone"
    by (simp add: env_details_def env0_def)
  show ?thesis
    by (simp add: single_ggl_text_call_def post py_get_def Let_def nocache
          make_get_exhausted [OF live fail] build_details_search_payload_def
          env_details_def [THEN arg_cong, of CONF] env0_def conf0_def)
qed

theorem failed_details_contribute_empty_witness:
  "\<not> test_mode (CONF env_details)
   \<and> (\<forall>t u h. g_status (http_get env_details t u h) \<noteq> 200)
   \<and> ids_and_location_only (req0\<lparr>ids_and_location_only := True\<rparr>)
   \<and> fst (make_post_api_call env_details
             (build_text_search_payload env_details (req0\<lparr>ids_and_location_only := True\<rparr>) ''q'') [])
       = Inr (Some [PDict [(''id'', PStr ''p1'')]])
   \<and> py_get (PDict [(''id'', PStr ''p1'')]) ''id'' = Inr (PStr ''p1'')
   \<and> (\<forall>t. \<not> truthy (load_place_details env_details t ''p1''))
   \<and> fst (single_ggl_text_call env_details (req0\<lparr>ids_and_location_only := True\<rparr>)
             ''q'' ''ident'' []) = Inr (''ident'', Some [PDict []])
   \<and> [PDict []] ! 0 = PDict []"
proof -
  have live: "\<not> test_mode (CONF env_details)"
    by (simp add: env_details_def env0_def conf0_def)
  have fail: "\<forall>t u h. g_status (http_get env_details t u h) \<noteq> 200"
    by (simp add: env_details_def env0_def)
  have flag: "ids_and_location_only (req0\<lparr>ids_and_location_only := True\<rparr>)"
    by simp
  have posted: "fst (make_post_api_call env_details
                  (build_text_search_payload env_details (req0\<lparr>ids_and_location_only := True\<rparr>) ''q'') [])
                = Inr (Some [PDict [(''id'', PStr ''p1'')]])"
    using live
    by (simp add: make_post_api_call_def post_loop.simps max_retries_def Let_def env_details_def)
  have pid: "py_get (PDict [(''id'', PStr ''p1'')]) ''id'' = Inr (PStr ''p1'')"
    by (simp add: py_get_def)
  have nocache: "\<forall>t. \<not> truthy (load_place_details env_details t ''p1'')"
    by (simp add: env_details_def env0_def)
  from failed_details_contribute_empty [OF live fail flag posted details_run]
  obtain rs where rs: "Some [PDict []] = Some rs"
    and at: "\<forall>i<length [PDict [(''id'', PStr ''p1'')]]. \<forall>pid.
            py_get ([PDict [(''id'', PStr ''p1'')]] ! i) ''id'' = Inr (PStr pid)
            \<and> (\<forall>t. \<not> truthy (load_place_details env_details t pid)) \<longrightarrow> rs ! i = PDict []"
    by blast
  from at pid nocache have "rs ! 0 = PDict []"
    by simp
  with rs have zero: "[PDict []] ! 0 = PDict []"
    by simp
  have run: "fst (single_ggl_text_call env_details (req0\<lparr>ids_and_location_only := True\<rparr>)
             ''q'' ''ident'' []) = Inr (''ident'', Some [PDict []])"
    by (simp only: details_run fst_conv)
  from live fail flag posted pid nocache run zero show ?thesis
    by (intro conjI)
qed

section \<open>The cache short-circuit\<close>

text \<open>
  Claim C7. When the cache holds a (truthy) dataset under the combined fingerprint,
  both composition functions return that dataset unchanged, and the only effect is
  the one cache lookup of the combined fingerprint: no lookup of a partial dataset,
  no provider call, no store.
\<close>

theorem cached_combined_short_circuit:
  assumes hit: "load_dataset e tr (make_dataset_filename e r) = Some d"
    and nonempty: "ds_truthy d"
  shows "fetch_text_search_ggl_maps_api e r optimized_queries tr
           = (Inr d, tr @ [LoadDataset (make_dataset_filename e r)])
         \<and> fetch_cat_google_maps_api e r optimized_queries tr
           = (Inr d, tr @ [LoadDataset (make_dataset_filename e r)])"
  using hit nonempty
  by (simp add: fetch_text_search_ggl_maps_api_def fetch_cat_google_maps_api_def
        truthy_ds_def Let_def)

theorem cached_combined_short_circuit_witness:
  "load_dataset env_cached [] (make_dataset_filename env_cached req0) = Some dsA
   \<and> ds_truthy dsA
   \<and> fetch_text_search_ggl_maps_api env_cached req0 [([''a''], [''b''])] []
        = (Inr dsA, [LoadDataset ''all''])
   \<and> fetch_cat_google_maps_api env_cached req0 [([''a''], [''b''])] []
        = (Inr dsA, [LoadDataset ''all''])"
proof -
  have hit: "load_dataset env_cached [] (make_dataset_filename env_cached req0) = Some dsA"
    by (simp add: env_cached_def env0_def)
  have nonempty: "ds_truthy dsA"
    by (simp add: ds_truthy_def dsA_def)
  have name: "make_dataset_filename env_cached req0 = ''all''"
    by (simp add: env_cached_def env0_def)
  from cached_combined_short_circuit [OF hit nonempty, of "[([''a''], [''b''])]"]
  show ?thesis using hit nonempty by (simp add: name)
qed

section \<open>The union step\<close>

lemma union_features_append:
  "union_features (xs @ ys) st =
     (case union_features xs st of Inl err \<Rightarrow> Inl err | Inr st' \<Rightarrow> union_features ys st')"
  by (induction xs st rule: union_features.induct) auto

lemma union_features_spec:
  "union_features fs (acc, seen) = Inr (acc', seen') \<Longrightarrow>
   \<exists>new. acc' = acc @ new
     \<and> seen' = seen \<union> feature_id ` set new
     \<and> distinct (map feature_id new)
     \<and> feature_id ` set new = feature_id ` set fs - {PNone} - seen
     \<and> (\<forall>f\<in>set new. find (\<lambda>g. feature_id g = feature_id f) fs = Some f)
     \<and> subseq new fs"
proof (induction fs arbitrary: acc seen)
  case Nil
  then show ?case by simp
next
  case (Cons f fs)
  show ?case
  proof (cases "feature_id f \<noteq> PNone \<and> feature_id f \<notin> seen")
    case True
    with Cons.prems have run: "union_features fs (acc @ [f], insert (feature_id f) seen) = Inr (acc', seen')"
      by (auto split: if_splits)
    from Cons.IH [OF run] obtain new where new:
      "acc' = (acc @ [f]) @ new"
      "seen' = insert (feature_id f) seen \<union> feature_id ` set new"
      "distinct (map feature_id new)"
      "feature_id ` set new = feature_id ` set fs - {PNone} - insert (feature_id f) seen"
      "\<forall>g\<in>set new. find (\<lambda>h. feature_id h = feature_id g) fs = Some g"
      "subseq new fs"
      by blast
    have notin: "feature_id f \<notin> feature_id ` set new"
      using new(4) by auto
    have "\<forall>g\<in>set (f # new). find (\<lambda>h. feature_id h = feature_id g) (f # fs) = Some g"
      using new(5) notin by auto
    moreover have "feature_id ` set (f # new) = feature_id ` set (f # fs) - {PNone} - seen"
      using new(4) True by auto
    moreover have "distinct (map feature_id (f # new))"
      using new(3) notin by simp
    ultimately show ?thesis
      using new(1,2,6) by (intro exI [of _ "f # new"]) auto
  next
    case False
    with Cons.prems have run: "union_features fs (acc, seen) = Inr (acc', seen')"
      by (auto split: if_splits)
    from Cons.IH [OF run] obtain new where new:
      "acc' = acc @ new"
      "seen' = seen \<union> feature_id ` set new"
      "distinct (map feature_id new)"
      "feature_id ` set new = feature_id ` set fs - {PNone} - seen"
      "\<forall>g\<in>set new. find (\<lambda>h. feature_id h = feature_id g) fs = Some g"
      "subseq new fs"
      by blast
    have "\<forall>g\<in>set new. find (\<lambda>h. feature_id h = feature_id g) (f # fs) = Some g"
    proof
      fix g assume g: "g \<in> set new"
      then have "feature_id g \<in> feature_id ` set fs - {PNone} - seen"
        using new(4) by blast
      with False have "feature_id f \<noteq> feature_id g" by auto
      with new(5) g show "find (\<lambda>h. feature_id h = feature_id g) (f # fs) = Some g" by simp
    qed
    moreover have "feature_id ` set new = feature_id ` set (f # fs) - {PNone} - seen"
      using new(4) False by auto
    ultimately show ?thesis
      using new(1,2,3,6) by (intro exI [of _ new]) auto
  qed
qed

lemma set_update_set: "set (set_update props ns) = set props \<union> set ns"
  by (induction props ns rule: set_update.induct) auto

lemma union_datasets_concat:
  "union_datasets ds (props, acc, seen) = Inr (props', acc', seen') \<Longrightarrow>
   union_features (concat (map features_of ds)) (acc, seen) = Inr (acc', seen')
   \<and> set props' = set props \<union> (\<Union>d\<in>set ds. set (case ds_properties d of None \<Rightarrow> [] | Some ns \<Rightarrow> ns))"
proof (induction ds arbitrary: props acc seen)
  case Nil
  then show ?case by simp
next
  case (Cons d ds)
  from Cons.prems obtain acc1 seen1 where
    one: "union_features (features_of d) (acc, seen) = Inr (acc1, seen1)"
    and rest: "union_datasets ds
                 (set_update props (case ds_properties d of None \<Rightarrow> [] | Some ns \<Rightarrow> ns), acc1, seen1)
               = Inr (props', acc', seen')"
    by (auto simp: features_of_def split: sum.splits)
  from Cons.IH [OF rest] one show ?case
    by (auto simp: union_features_append set_update_set)
qed

lemma combine_spec:
  assumes "combine datasets = Inr c"
  shows "\<exists>props. ds_properties c = Some props
      \<and> set props = (\<Union>d\<in>set (map snd datasets). set (case ds_properties d of None \<Rightarrow> [] | Some ns \<Rightarrow> ns))
      \<and> distinct (map feature_id (features_of c))
      \<and> feature_id ` set (features_of c)
          = feature_id ` set (concat (map (features_of \<circ> snd) datasets)) - {PNone}
      \<and> (\<forall>f\<in>set (features_of c).
            find (\<lambda>g. feature_id g = feature_id f) (concat (map (features_of \<circ> snd) datasets)) = Some f)
      \<and> subseq (features_of c) (concat (map (features_of \<circ> snd) datasets))"
proof -
  from assms obtain props feats seen where
    u: "union_datasets (map snd datasets) ([], [], {}) = Inr (props, feats, seen)"
    and c: "c = \<lparr>ds_type = Some (PStr ''FeatureCollection''), ds_features = Some feats,
                 ds_properties = Some props\<rparr>"
    by (auto simp: combine_def split: sum.splits)
  from union_datasets_concat [OF u] have
    f: "union_features (concat (map features_of (map snd datasets))) ([], {}) = Inr (feats, seen)"
    and p: "set props = (\<Union>d\<in>set (map snd datasets). set (case ds_properties d of None \<Rightarrow> [] | Some ns \<Rightarrow> ns))"
    by auto
  from union_features_spec [OF f] c p show ?thesis
    by (auto simp: features_of_def comp_def)
qed

section \<open>The composition functions\<close>

lemma fetch_cat_uncached:
  assumes miss: "truthy_ds (load_dataset e tr (make_dataset_filename e r)) = None"
    and ret: "fetch_cat_google_maps_api e r qs tr = (Inr d, tr')"
  shows "\<exists>datasets pre. combine datasets = Inr d
           \<and> tr' = (if features_of d \<noteq> []
                    then pre @ [StoreDataResp r d (make_dataset_filename e r)] else pre)"
  using ret miss
  apply (simp add: fetch_cat_google_maps_api_def Let_def split: prod.splits sum.splits if_splits)
  apply blast+
  done

lemma fetch_text_uncached:
  assumes miss: "truthy_ds (load_dataset e tr (make_dataset_filename e r)) = None"
    and ret: "fetch_text_search_ggl_maps_api e r qs tr = (Inr d, tr')"
  shows "\<exists>datasets c pre. combine datasets = Inr c
           \<and> tr' = (if features_of c \<noteq> []
                    then pre @ [StoreDataResp r c (make_dataset_filename e r)] else pre)
           \<and> d = (if features_of c \<noteq> [] \<and> \<not> ids_and_location_only r
                  then c\<lparr>ds_features := Some (map del_id (features_of c))\<rparr> else c)"
  using ret miss
  apply (simp add: fetch_text_search_ggl_maps_api_def Let_def split: prod.splits sum.splits if_splits)
  apply blast+
  done

lemma text_run_flag:
  "fetch_text_search_ggl_maps_api env_text (req0\<lparr>ids_and_location_only := True\<rparr>) [([''a''], [])] []
     = (Inr dsA,
        [LoadDataset ''all'', LoadDataset ''a|'', LoadDataset ''|'',
         StoreDataResp (req0\<lparr>ids_and_location_only := True\<rparr>) dsA ''all''])"
  by (simp add: fetch_text_search_ggl_maps_api_def Let_def env_text_def env0_def truthy_ds_def
        ds_truthy_def dsA_def part_or_load_def reconstruct_def combine_def features_of_def
        feature_id_def featA_def)

lemma text_run_noflag:
  "fetch_text_search_ggl_maps_api env_text req0 [([''a''], [])] []
     = (Inr (dsA\<lparr>ds_features := Some [featA\<lparr>f_properties := Some [(''name'', PStr ''A'')]\<rparr>]\<rparr>),
        [LoadDataset ''all'', LoadDataset ''a|'', LoadDataset ''|'',
         StoreDataResp req0 dsA ''all''])"
  by (simp add: fetch_text_search_ggl_maps_api_def Let_def env_text_def env0_def truthy_ds_def
        ds_truthy_def dsA_def part_or_load_def reconstruct_def combine_def features_of_def
        feature_id_def featA_def req0_def del_id_def AList.delete_eq)

lemma combine_run: "combine datasets0 = Inr combined0"
  by (simp add: combine_def datasets0_def combined0_def dsA_def dsB_def featA_def featB_def
        featA2_def featN_def feature_id_def)

lemma env_text_miss:
  "truthy_ds (load_dataset env_text [] (make_dataset_filename env_text q)) = None"
  by (simp add: env_text_def env0_def truthy_ds_def)

lemma map_of_delete_same: "map_of (AList.delete k al) k = None"
  by (simp add: map_of_eq_None_iff delete_notin_dom)

lemma feature_id_del_id: "feature_id (del_id f) = PNone"
  by (simp add: feature_id_def del_id_def map_of_delete_same split: option.splits)

text \<open>
  Claim C5. In the dataset built by the union step, which is the same code in both
  composition functions, no two features have the same \<open>id\<close>; the features are a
  subsequence of the features of the partial datasets in iteration order, each one
  the first feature of that order with its id; the ids are the ids that occur in
  the partial datasets, \<open>None\<close> apart; and the manifest holds exactly the property
  names of all the partial datasets. The category function returns that dataset; the
  text function returns it, with the \<open>id\<close> property deleted from its features or not.
\<close>

theorem union_first_occurrence_wins:
  "(combine datasets = Inr c \<longrightarrow>
      distinct (map feature_id (features_of c))
      \<and> subseq (features_of c) (concat (map (features_of \<circ> snd) datasets))
      \<and> (\<forall>f\<in>set (features_of c).
            find (\<lambda>g. feature_id g = feature_id f) (concat (map (features_of \<circ> snd) datasets)) = Some f)
      \<and> feature_id ` set (features_of c)
          = feature_id ` set (concat (map (features_of \<circ> snd) datasets)) - {PNone}
      \<and> (\<exists>props. ds_properties c = Some props
            \<and> set props = (\<Union>d\<in>set (map snd datasets).
                              set (case ds_properties d of None \<Rightarrow> [] | Some ns \<Rightarrow> ns))))
   \<and> (truthy_ds (load_dataset e tr (make_dataset_filename e r)) = None
        \<and> fetch_cat_google_maps_api e r qs tr = (Inr d, tr')
      \<longrightarrow> distinct (map feature_id (features_of d)))
   \<and> (truthy_ds (load_dataset e tr (make_dataset_filename e r)) = None
        \<and> fetch_text_search_ggl_maps_api e r qs tr = (Inr d', tr'')
      \<longrightarrow> (\<exists>c'. distinct (map feature_id (features_of c'))
                \<and> (features_of d' = features_of c'
                    \<or> features_of d' = map del_id (features_of c'))))"
proof (intro conjI impI)
  assume "combine datasets = Inr c"
  from combine_spec [OF this]
  show "distinct (map feature_id (features_of c))"
    and "subseq (features_of c) (concat (map (features_of \<circ> snd) datasets))"
    and "\<forall>f\<in>set (features_of c).
            find (\<lambda>g. feature_id g = feature_id f) (concat (map (features_of \<circ> snd) datasets)) = Some f"
    and "feature_id ` set (features_of c)
          = feature_id ` set (concat (map (features_of \<circ> snd) datasets)) - {PNone}"
    and "\<exists>props. ds_properties c = Some props
            \<and> set props = (\<Union>d\<in>set (map snd datasets).
                              set (case ds_properties d of None \<Rightarrow> [] | Some ns \<Rightarrow> ns))"
    by blast+
next
  assume "truthy_ds (load_dataset e tr (make_dataset_filename e r)) = None
        \<and> fetch_cat_google_maps_api e r qs tr = (Inr d, tr')"
  then obtain datasets where "combine datasets = Inr d"
    using fetch_cat_uncached by blast
  from combine_spec [OF this] show "distinct (map feature_id (features_of d))"
    by blast
next
  assume "truthy_ds (load_dataset e tr (make_dataset_filename e r)) = None
        \<and> fetch_text_search_ggl_maps_api e r qs tr = (Inr d', tr'')"
  then obtain datasets c' where c: "combine datasets = Inr c'"
    and d: "d' = (if features_of c' \<noteq> [] \<and> \<not> ids_and_location_only r
                  then c'\<lparr>ds_features := Some (map del_id (features_of c'))\<rparr> else c')"
    using fetch_text_uncached by blast
  from combine_spec [OF c] have "distinct (map feature_id (features_of c'))"
    by blast
  moreover from d have "features_of d' = features_of c' \<or> features_of d' = map del_id (features_of c')"
    by (auto simp: features_of_def)
  ultimately show "\<exists>c'. distinct (map feature_id (features_of c'))
                \<and> (features_of d' = features_of c'
                    \<or> features_of d' = map del_id (features_of c'))"
    by blast
qed

theorem union_first_occurrence_wins_witness:
  "combine datasets0 = Inr combined0
   \<and> features_of combined0 = [featA, featB]
   \<and> concat (map (features_of \<circ> snd) datasets0) = [featA, featN, featA2, featB]
   \<and> distinct (map feature_id (features_of combined0))
   \<and> find (\<lambda>g. feature_id g = feature_id featA) (concat (map (features_of \<circ> snd) datasets0)) = Some featA
   \<and> (\<exists>props. ds_properties combined0 = Some props \<and> set props = {''id'', ''name'', ''rating''})"
proof -
  have feats: "features_of combined0 = [featA, featB]"
    by (simp add: features_of_def combined0_def)
  have all: "concat (map (features_of \<circ> snd) datasets0) = [featA, featN, featA2, featB]"
    by (simp add: features_of_def datasets0_def dsA_def dsB_def)
  have props: "(\<Union>d\<in>set (map snd datasets0). set (case ds_properties d of None \<Rightarrow> [] | Some ns \<Rightarrow> ns))
                 = {''id'', ''name'', ''rating''}"
    by (auto simp: datasets0_def dsA_def dsB_def)
  note spec = union_first_occurrence_wins [of datasets0 combined0, THEN conjunct1, THEN mp,
                OF combine_run]
  from spec have d: "distinct (map feature_id (features_of combined0))"
    by (rule conjunct1)
  from spec have f: "\<forall>f\<in>set (features_of combined0).
      find (\<lambda>g. feature_id g = feature_id f) (concat (map (features_of \<circ> snd) datasets0)) = Some f"
    by (elim conjE)
  from spec obtain ps where ps: "ds_properties combined0 = Some ps"
     "set ps = (\<Union>d\<in>set (map snd datasets0). set (case ds_properties d of None \<Rightarrow> [] | Some ns \<Rightarrow> ns))"
    by (elim conjE exE)
  from f have fA: "find (\<lambda>g. feature_id g = feature_id featA)
                     (concat (map (features_of \<circ> snd) datasets0)) = Some featA"
    by (simp only: feats list.set insert_iff ball_simps simp_thms)
  from ps have e: "\<exists>props. ds_properties combined0 = Some props \<and> set props = {''id'', ''name'', ''rating''}"
    by (simp only: props) blast
  from combine_run feats all d fA e show ?thesis
    by (intro conjI)
qed

text \<open>
  Claim C10. The union step keeps no feature whose id lookup yields \<open>None\<close>: every
  feature of the combined dataset has an id, and a feature without an id that is
  present in a partial dataset is absent from the combined dataset. This holds for
  the dataset that the category function returns and for the combined dataset of the
  text function.
\<close>

theorem idless_features_omitted:
  "(combine datasets = Inr c \<longrightarrow>
      (\<forall>f\<in>set (features_of c). feature_id f \<noteq> PNone)
      \<and> (\<forall>f\<in>set (concat (map (features_of \<circ> snd) datasets)).
            feature_id f = PNone \<longrightarrow> f \<notin> set (features_of c)))
   \<and> (truthy_ds (load_dataset e tr (make_dataset_filename e r)) = None
        \<and> fetch_cat_google_maps_api e r qs tr = (Inr d, tr')
      \<longrightarrow> (\<forall>f\<in>set (features_of d). feature_id f \<noteq> PNone))
   \<and> (truthy_ds (load_dataset e tr (make_dataset_filename e r)) = None
        \<and> fetch_text_search_ggl_maps_api e r qs tr = (Inr d', tr'')
      \<longrightarrow> (\<exists>c'. (\<forall>f\<in>set (features_of c'). feature_id f \<noteq> PNone)
                \<and> (features_of d' = features_of c'
                    \<or> features_of d' = map del_id (features_of c'))))"
proof (intro conjI impI)
  assume "combine datasets = Inr c"
  from combine_spec [OF this]
  have ids: "feature_id ` set (features_of c)
          = feature_id ` set (concat (map (features_of \<circ> snd) datasets)) - {PNone}"
    by blast
  then show "\<forall>f\<in>set (features_of c). feature_id f \<noteq> PNone"
    by blast
  with ids show "\<forall>f\<in>set (concat (map (features_of \<circ> snd) datasets)).
            feature_id f = PNone \<longrightarrow> f \<notin> set (features_of c)"
    by blast
next
  assume "truthy_ds (load_dataset e tr (make_dataset_filename e r)) = None
        \<and> fetch_cat_google_maps_api e r qs tr = (Inr d, tr')"
  then obtain datasets where "combine datasets = Inr d"
    using fetch_cat_uncached by blast
  from combine_spec [OF this] show "\<forall>f\<in>set (features_of d). feature_id f \<noteq> PNone"
    by blast
next
  assume "truthy_ds (load_dataset e tr (make_dataset_filename e r)) = None
        \<and> fetch_text_search_ggl_maps_api e r qs tr = (Inr d', tr'')"
  then obtain datasets c' where c: "combine datasets = Inr c'"
    and d: "d' = (if features_of c' \<noteq> [] \<and> \<not> ids_and_location_only r
                  then c'\<lparr>ds_features := Some (map del_id (features_of c'))\<rparr> else c')"
    using fetch_text_uncached by blast
  from combine_spec [OF c] have "\<forall>f\<in>set (features_of c'). feature_id f \<noteq> PNone"
    by blast
  moreover from d have "features_of d' = features_of c' \<or> features_of d' = map del_id (features_of c')"
    by (auto simp: features_of_def)
  ultimately show "\<exists>c'. (\<forall>f\<in>set (features_of c'). feature_id f \<noteq> PNone)
                \<and> (features_of d' = features_of c'
                    \<or> features_of d' = map del_id (features_of c'))"
    by blast
qed

theorem idless_features_omitted_witness:
  "combine datasets0 = Inr combined0
   \<and> featN \<in> set (concat (map (features_of \<circ> snd) datasets0))
   \<and> feature_id featN = PNone
   \<and> featN \<notin> set (features_of combined0)
   \<and> features_of combined0 = [featA, featB]
   \<and> feature_id featA \<noteq> PNone \<and> feature_id featB \<noteq> PNone"
proof -
  have all: "concat (map (features_of \<circ> snd) datasets0) = [featA, featN, featA2, featB]"
    by (simp add: features_of_def datasets0_def dsA_def dsB_def)
  have feats: "features_of combined0 = [featA, featB]"
    by (simp add: features_of_def combined0_def)
  have idn: "feature_id featN = PNone"
    by (simp add: feature_id_def featN_def)
  note spec = idless_features_omitted [of datasets0 combined0, THEN conjunct1, THEN mp,
                OF combine_run]
  from spec have ids: "\<forall>f\<in>set (features_of combined0). feature_id f \<noteq> PNone"
    by (rule conjunct1)
  from spec have out: "\<forall>f\<in>set (concat (map (features_of \<circ> snd) datasets0)).
            feature_id f = PNone \<longrightarrow> f \<notin> set (features_of combined0)"
    by (rule conjunct2)
  have inN: "featN \<in> set (concat (map (features_of \<circ> snd) datasets0))"
    by (simp only: all) simp
  from out inN idn have notin: "featN \<notin> set (features_of combined0)"
    by blast
  from ids have "feature_id featA \<noteq> PNone" "feature_id featB \<noteq> PNone"
    by (simp_all only: feats list.set insert_iff ball_simps simp_thms)
  with combine_run inN idn notin feats show ?thesis
    by (intro conjI)
qed

text \<open>
  Claim C2, as the code has it. When the combined dataset is not served from the
  cache, \<open>fetch_text_search_ggl_maps_api\<close> deletes the \<open>id\<close> property from every
  returned feature for a request that did not set \<open>ids_and_location_only\<close>, and
  keeps it on every returned feature for a request that set the flag.
\<close>

theorem id_deleted_unless_ids_only:
  assumes miss: "truthy_ds (load_dataset e tr (make_dataset_filename e r)) = None"
    and ret: "fetch_text_search_ggl_maps_api e r qs tr = (Inr d, tr')"
  shows "(\<not> ids_and_location_only r \<longrightarrow> (\<forall>f\<in>set (features_of d). feature_id f = PNone))
       \<and> (ids_and_location_only r \<longrightarrow> (\<forall>f\<in>set (features_of d). feature_id f \<noteq> PNone))"
proof -
  from fetch_text_uncached [OF miss ret] obtain datasets c where c: "combine datasets = Inr c"
    and d: "d = (if features_of c \<noteq> [] \<and> \<not> ids_and_location_only r
                  then c\<lparr>ds_features := Some (map del_id (features_of c))\<rparr> else c)"
    by blast
  from combine_spec [OF c] have ids: "\<forall>f\<in>set (features_of c). feature_id f \<noteq> PNone"
    by blast
  show ?thesis
  proof (cases "ids_and_location_only r")
    case True
    with d ids show ?thesis by simp
  next
    case False
    with d show ?thesis
      by (cases "features_of c = []") (auto simp: features_of_def feature_id_del_id)
  qed
qed

theorem id_deleted_unless_ids_only_witness:
  "truthy_ds (load_dataset env_text [] (make_dataset_filename env_text req0)) = None
   \<and> fst (fetch_text_search_ggl_maps_api env_text req0 [([''a''], [])] [])
       = Inr (dsA\<lparr>ds_features := Some [featA\<lparr>f_properties := Some [(''name'', PStr ''A'')]\<rparr>]\<rparr>)
   \<and> \<not> ids_and_location_only req0
   \<and> feature_id (featA\<lparr>f_properties := Some [(''name'', PStr ''A'')]\<rparr>) = PNone"
proof -
  have flag: "\<not> ids_and_location_only req0"
    by (simp add: req0_def)
  from id_deleted_unless_ids_only [OF env_text_miss text_run_noflag, THEN conjunct1, THEN mp, OF flag]
  have "feature_id (featA\<lparr>f_properties := Some [(''name'', PStr ''A'')]\<rparr>) = PNone"
    by (simp add: features_of_def)
  with flag env_text_miss [of req0] show ?thesis
    by (simp only: text_run_noflag fst_conv simp_thms)
qed

text \<open>
  Claim C2 as stated fails: with the flag set the returned feature still carries its
  \<open>id\<close>, and without the flag the \<open>id\<close> is gone.
\<close>

theorem id_stripped_when_ids_only_counterexample:
  "ids_and_location_only (req0\<lparr>ids_and_location_only := True\<rparr>)
   \<and> fst (fetch_text_search_ggl_maps_api env_text (req0\<lparr>ids_and_location_only := True\<rparr>)
           [([''a''], [])] []) = Inr dsA
   \<and> map feature_id (features_of dsA) = [PStr ''x'']
   \<and> \<not> ids_and_location_only req0
   \<and> fst (fetch_text_search_ggl_maps_api env_text req0 [([''a''], [])] [])
       = Inr (dsA\<lparr>ds_features := Some [featA\<lparr>f_properties := Some [(''name'', PStr ''A'')]\<rparr>]\<rparr>)
   \<and> map feature_id
        (features_of (dsA\<lparr>ds_features := Some [featA\<lparr>f_properties := Some [(''name'', PStr ''A'')]\<rparr>]\<rparr>))
       = [PNone]"
proof (intro conjI)
  show "ids_and_location_only (req0\<lparr>ids_and_location_only := True\<rparr>)"
    by simp
  show "fst (fetch_text_search_ggl_maps_api env_text (req0\<lparr>ids_and_location_only := True\<rparr>)
           [([''a''], [])] []) = Inr dsA"
    by (simp only: text_run_flag fst_conv)
  show "map feature_id (features_of dsA) = [PStr ''x'']"
    by (simp add: features_of_def dsA_def feature_id_def featA_def)
  show "\<not> ids_and_location_only req0"
    by (simp add: req0_def)
  show "fst (fetch_text_search_ggl_maps_api env_text req0 [([''a''], [])] [])
       = Inr (dsA\<lparr>ds_features := Some [featA\<lparr>f_properties := Some [(''name'', PStr ''A'')]\<rparr>]\<rparr>)"
    by (simp only: text_run_noflag fst_conv)
  show "map feature_id
        (features_of (dsA\<lparr>ds_features := Some [featA\<lparr>f_properties := Some [(''name'', PStr ''A'')]\<rparr>]\<rparr>))
       = [PNone]"
    by (simp add: features_of_def feature_id_def)
qed

section \<open>Reconstruction of a partial dataset\<close>

lemma ids_to_exclude_spec:
  "ids_to_exclude ps ids = Inr ids' \<Longrightarrow> ids' = ids \<union> feature_id ` set ps"
  by (induction ps arbitrary: ids) (auto split: if_splits)

lemma filtered_places_spec:
  "filtered_places ps ids acc = Inr res \<Longrightarrow> res = acc @ filter (\<lambda>f. feature_id f \<notin> ids) ps"
proof (induction ps arbitrary: acc)
  case Nil
  then show ?case by simp
next
  case (Cons p ps)
  from Cons.prems Cons.IH [of "acc @ [p]"] Cons.IH [of acc] show ?case
    by (auto split: if_splits)
qed

lemma reconstruct_both:
  assumes a: "truthy_ds I = Some a" and b: "truthy_ds X = Some b"
    and ret: "reconstruct I X = Inr (res, st)"
  shows "res = (if filter (\<lambda>f. feature_id f \<notin> feature_id ` set (features_of b)) (features_of a) = []
                then None
                else Some \<lparr>ds_type = Some (PStr ''FeatureCollection''),
                          ds_features = Some (filter (\<lambda>f. feature_id f \<notin> feature_id ` set (features_of b))
                                                (features_of a)),
                          ds_properties = Some (case ds_properties a of None \<Rightarrow> [] | Some ns \<Rightarrow> ns)\<rparr>)
         \<and> st = (filter (\<lambda>f. feature_id f \<notin> feature_id ` set (features_of b)) (features_of a) \<noteq> [])"
proof -
  from ret a b obtain efs ids ifs kept where
    efs: "ds_features b = Some efs" and ids: "ids_to_exclude efs {} = Inr ids"
    and ifs: "ds_features a = Some ifs" and kept: "filtered_places ifs ids [] = Inr kept"
    by (auto simp: reconstruct_def split: option.splits sum.splits list.splits)
  from ids_to_exclude_spec [OF ids] have ids': "ids = feature_id ` set (features_of b)"
    by (simp add: features_of_def efs)
  from filtered_places_spec [OF kept] have kept':
    "kept = filter (\<lambda>f. feature_id f \<notin> feature_id ` set (features_of b)) (features_of a)"
    by (simp add: features_of_def ifs ids')
  from ret a b efs ids ifs kept show ?thesis
    unfolding kept' [symmetric]
    by (auto simp: reconstruct_def split: list.splits)
qed

text \<open>
  Claim C3, as the code has it. For one (included, excluded) tuple, with the include
  and the exclude dataset as looked up by the reconstruction loop: when both are
  present, the partial dataset holds exactly the features of the include dataset
  whose id is not an id of the exclude dataset, with the include dataset's manifest,
  and when it is not empty it is assigned and stored under the partial fingerprint
  (when it is empty nothing is assigned and nothing is stored); when only the
  include dataset is present it is assigned unchanged and nothing is stored; when
  the include dataset is empty or absent the empty dict is assigned and nothing is
  stored.
\<close>

theorem partial_reconstruction:
  assumes inc: "part_or_load e sp (make_dataset_filename_part e r it []) tr = (I, tr1)"
    and exc: "part_or_load e sp (make_dataset_filename_part e r [] et) tr1 = (X, tr2)"
    and ret: "text_reconstruct e r sp [(it, et)] datasets tr = (Inr datasets', tr')"
  shows "(\<forall>a b. truthy_ds I = Some a \<and> truthy_ds X = Some b \<longrightarrow>
            (let kept = filter (\<lambda>f. feature_id f \<notin> feature_id ` set (features_of b)) (features_of a);
                 part = \<lparr>ds_type = Some (PStr ''FeatureCollection''), ds_features = Some kept,
                         ds_properties = Some (case ds_properties a of None \<Rightarrow> [] | Some ns \<Rightarrow> ns)\<rparr>
             in if kept \<noteq> []
                then datasets' = AList.update (make_dataset_filename_part e r it et) part datasets
                     \<and> tr' = tr2 @ [StoreDataResp r part (make_dataset_filename_part e r it et)]
                else datasets' = datasets \<and> tr' = tr2))
       \<and> (\<forall>a. truthy_ds I = Some a \<and> truthy_ds X = None \<longrightarrow>
             datasets' = AList.update (make_dataset_filename_part e r it et) a datasets \<and> tr' = tr2)
       \<and> (truthy_ds I = None \<longrightarrow>
             datasets' = AList.update (make_dataset_filename_part e r it et) empty_dict datasets
             \<and> tr' = tr2)"
proof -
  have both: "\<forall>a b. truthy_ds I = Some a \<and> truthy_ds X = Some b \<longrightarrow>
            (let kept = filter (\<lambda>f. feature_id f \<notin> feature_id ` set (features_of b)) (features_of a);
                 part = \<lparr>ds_type = Some (PStr ''FeatureCollection''), ds_features = Some kept,
                         ds_properties = Some (case ds_properties a of None \<Rightarrow> [] | Some ns \<Rightarrow> ns)\<rparr>
             in if kept \<noteq> []
                then datasets' = AList.update (make_dataset_filename_part e r it et) part datasets
                     \<and> tr' = tr2 @ [StoreDataResp r part (make_dataset_filename_part e r it et)]
                else datasets' = datasets \<and> tr' = tr2)"
  proof (intro allI impI)
    fix a b
    assume ab: "truthy_ds I = Some a \<and> truthy_ds X = Some b"
    from ret inc exc obtain res st where rec: "reconstruct I X = Inr (res, st)"
      by (auto simp: Let_def split: sum.splits prod.splits)
    from reconstruct_both [OF _ _ rec] ab have
      res: "res = (if filter (\<lambda>f. feature_id f \<notin> feature_id ` set (features_of b)) (features_of a) = []
                  then None
                  else Some \<lparr>ds_type = Some (PStr ''FeatureCollection''),
                            ds_features = Some (filter (\<lambda>f. feature_id f \<notin> feature_id ` set (features_of b))
                                                  (features_of a)),
                            ds_properties = Some (case ds_properties a of None \<Rightarrow> [] | Some ns \<Rightarrow> ns)\<rparr>)"
      and st: "st = (filter (\<lambda>f. feature_id f \<notin> feature_id ` set (features_of b)) (features_of a) \<noteq> [])"
      by blast+
    from ret inc exc rec res st
    show "let kept = filter (\<lambda>f. feature_id f \<notin> feature_id ` set (features_of b)) (features_of a);
              part = \<lparr>ds_type = Some (PStr ''FeatureCollection''), ds_features = Some kept,
                      ds_properties = Some (case ds_properties a of None \<Rightarrow> [] | Some ns \<Rightarrow> ns)\<rparr>
          in if kept \<noteq> []
             then datasets' = AList.update (make_dataset_filename_part e r it et) part datasets
                  \<and> tr' = tr2 @ [StoreDataResp r part (make_dataset_filename_part e r it et)]
             else datasets' = datasets \<and> tr' = tr2"
      by (auto simp: Let_def split: if_splits)
  qed
  have only_include: "\<forall>a. truthy_ds I = Some a \<and> truthy_ds X = None \<longrightarrow>
             datasets' = AList.update (make_dataset_filename_part e r it et) a datasets \<and> tr' = tr2"
  proof (intro allI impI)
    fix a
    assume a: "truthy_ds I = Some a \<and> truthy_ds X = None"
    then have "reconstruct I X = Inr (Some a, False)"
      by (simp add: reconstruct_def)
    with ret inc exc
    show "datasets' = AList.update (make_dataset_filename_part e r it et) a datasets \<and> tr' = tr2"
      by (simp add: Let_def)
  qed
  have no_include: "truthy_ds I = None \<longrightarrow>
             datasets' = AList.update (make_dataset_filename_part e r it et) empty_dict datasets
             \<and> tr' = tr2"
  proof
    assume "truthy_ds I = None"
    then have "reconstruct I X = Inr (Some empty_dict, False)"
      by (simp add: reconstruct_def)
    with ret inc exc
    show "datasets' = AList.update (make_dataset_filename_part e r it et) empty_dict datasets \<and> tr' = tr2"
      by (simp add: Let_def)
  qed
  from both only_include no_include show ?thesis
    by (intro conjI)
qed

lemma parts0_run:
  "text_reconstruct env_text req0 parts0 [([''a''], [''b''])] [] []
     = (Inr [(''a|b'', partial0)], [StoreDataResp req0 partial0 ''a|b''])"
  by (simp add: Let_def env_text_def env0_def truthy_ds_def ds_truthy_def dsA_def dsAB_def
        parts0_def partial0_def part_or_load_def reconstruct_def feature_id_def featA_def featB_def)

theorem partial_reconstruction_witness:
  "part_or_load env_text parts0 (make_dataset_filename_part env_text req0 [''a''] []) [] = (Some dsAB, [])
   \<and> part_or_load env_text parts0 (make_dataset_filename_part env_text req0 [] [''b'']) [] = (Some dsA, [])
   \<and> text_reconstruct env_text req0 parts0 [([''a''], [''b''])] [] []
       = (Inr [(''a|b'', partial0)], [StoreDataResp req0 partial0 ''a|b''])
   \<and> truthy_ds (Some dsAB) = Some dsAB \<and> truthy_ds (Some dsA) = Some dsA
   \<and> filter (\<lambda>f. feature_id f \<notin> feature_id ` set (features_of dsA)) (features_of dsAB) = [featB]
   \<and> make_dataset_filename_part env_text req0 [''a''] [''b''] = ''a|b''"
proof -
  have inc: "part_or_load env_text parts0 (make_dataset_filename_part env_text req0 [''a''] []) []
               = (Some dsAB, [])"
    by (simp add: part_or_load_def parts0_def env_text_def env0_def truthy_ds_def ds_truthy_def dsAB_def)
  have exc: "part_or_load env_text parts0 (make_dataset_filename_part env_text req0 [] [''b'']) []
               = (Some dsA, [])"
    by (simp add: part_or_load_def parts0_def env_text_def env0_def truthy_ds_def ds_truthy_def dsA_def)
  have ta: "truthy_ds (Some dsAB) = Some dsAB" and tb: "truthy_ds (Some dsA) = Some dsA"
    by (simp_all add: truthy_ds_def ds_truthy_def dsAB_def dsA_def)
  have pid: "make_dataset_filename_part env_text req0 [''a''] [''b''] = ''a|b''"
    by (simp add: env_text_def env0_def)
  note spec = partial_reconstruction [OF inc exc parts0_run, THEN conjunct1, rule_format, of dsAB dsA]
  from spec ta tb have
    "(let kept = filter (\<lambda>f. feature_id f \<notin> feature_id ` set (features_of dsA)) (features_of dsAB);
          part = \<lparr>ds_type = Some (PStr ''FeatureCollection''), ds_features = Some kept,
                  ds_properties = Some (case ds_properties dsAB of None \<Rightarrow> [] | Some ns \<Rightarrow> ns)\<rparr>
      in if kept \<noteq> []
         then [(''a|b'', partial0)] = AList.update (make_dataset_filename_part env_text req0 [''a''] [''b'']) part []
              \<and> [StoreDataResp req0 partial0 ''a|b''] = [] @ [StoreDataResp req0 part (make_dataset_filename_part env_text req0 [''a''] [''b''])]
         else [(''a|b'', partial0)] = [] \<and> [StoreDataResp req0 partial0 ''a|b''] = [])"
    by blast
  then have kept: "filter (\<lambda>f. feature_id f \<notin> feature_id ` set (features_of dsA)) (features_of dsAB) = [featB]"
    by (simp add: Let_def partial0_def split: if_splits)
  from inc exc parts0_run ta tb kept pid show ?thesis
    by (intro conjI)
qed

lemma text_run_exclude_absent:
  "fetch_text_search_ggl_maps_api env_text req0 [([''a''], [''b''])] []
     = (Inr (dsA\<lparr>ds_features := Some [featA\<lparr>f_properties := Some [(''name'', PStr ''A'')]\<rparr>]\<rparr>),
        [LoadDataset ''all'', LoadDataset ''a|b'', LoadDataset ''a|'', LoadDataset ''|b'',
         Sleep MIN_DELAY, HttpPost (build_text_search_payload env_text req0 ''b''),
         LoadDataset ''|b'', StoreDataResp req0 dsA ''all''])"
  by (simp add: fetch_text_search_ggl_maps_api_def Let_def env_text_def env0_def truthy_ds_def
        ds_truthy_def dsA_def part_or_load_def reconstruct_def combine_def features_of_def
        feature_id_def featA_def req0_def del_id_def AList.delete_eq resolve_atomic_def
        single_ggl_text_call_def make_post_api_call_def post_loop.simps max_retries_def
        truthy_results_def conf0_def build_text_search_payload_def)

text \<open>
  Claim C3 as stated fails in its last part: for the tuple \<open>([a], [b])\<close> whose
  exclude-only dataset is absent (the provider finds nothing for \<open>b\<close>), the
  partial dataset is the non-empty include dataset, and the whole run stores the
  combined dataset only, nothing under the partial fingerprint \<open>a|b\<close>.
\<close>

theorem partial_not_persisted_counterexample:
  "make_dataset_filename_part env_text req0 [''a''] [''b''] = ''a|b''
   \<and> text_reconstruct env_text req0 [(''a|'', dsA)] [([''a''], [''b''])] [] []
       = (Inr [(''a|b'', dsA)], [LoadDataset ''|b''])
   \<and> features_of dsA = [featA]
   \<and> stored_ids (snd (fetch_text_search_ggl_maps_api env_text req0 [([''a''], [''b''])] [])) = [''all'']"
proof (intro conjI)
  show "make_dataset_filename_part env_text req0 [''a''] [''b''] = ''a|b''"
    by (simp add: env_text_def env0_def)
  show "text_reconstruct env_text req0 [(''a|'', dsA)] [([''a''], [''b''])] [] []
       = (Inr [(''a|b'', dsA)], [LoadDataset ''|b''])"
    by (simp add: Let_def env_text_def env0_def truthy_ds_def ds_truthy_def dsA_def
        part_or_load_def reconstruct_def)
  show "features_of dsA = [featA]"
    by (simp add: features_of_def dsA_def)
  show "stored_ids (snd (fetch_text_search_ggl_maps_api env_text req0 [([''a''], [''b''])] [])) = [''all'']"
    by (simp only: text_run_exclude_absent snd_conv) simp
qed

section \<open>The plan events of a run\<close>

lemma extends_refl: "extends tr tr"
  by (simp add: extends_def)

lemma extends_trans: "extends tr tr1 \<Longrightarrow> extends tr1 tr2 \<Longrightarrow> extends tr tr2"
  by (auto simp: extends_def)

lemma extends_snoc: "io_event ev \<Longrightarrow> extends tr tr1 \<Longrightarrow> extends tr (tr1 @ [ev])"
  by (auto simp: extends_def)

lemma extends_app: "extends tr tr1 \<Longrightarrow> list_all io_event new \<Longrightarrow> extends tr (tr1 @ new)"
  by (auto simp: extends_def)

lemma steps_append: "steps (xs @ ys) = steps xs @ steps ys"
  by (induction xs rule: steps.induct) auto

lemma rectified_append: "rectified (xs @ ys) = rectified xs @ rectified ys"
  by (induction xs rule: rectified.induct) auto

lemma steps_io: "list_all io_event new \<Longrightarrow> steps new = []"
  by (induction new rule: steps.induct) auto

lemma rectified_io: "list_all io_event new \<Longrightarrow> rectified new = []"
  by (induction new rule: rectified.induct) auto

lemma extends_plan: "extends tr tr1 \<Longrightarrow> steps tr1 = steps tr \<and> rectified tr1 = rectified tr"
  by (auto simp: extends_def steps_append rectified_append steps_io rectified_io)

lemma get_loop_extends: "extends tr0 tr \<Longrightarrow> extends tr0 (snd (get_loop e u h n tr))"
proof (induction e u h n tr rule: get_loop.induct)
  case (1 e u h retry_count tr)
  let ?tr1 = "tr @ [Sleep MIN_DELAY]"
  let ?tr2 = "?tr1 @ [HttpGet u h]"
  let ?tr3 = "?tr2 @ [Sleep (MIN_DELAY * 2 ^ (retry_count + 1))]"
  have e2: "extends tr0 ?tr2" and e3: "extends tr0 ?tr3"
    using "1.prems" by (auto intro!: extends_app)
  show ?case
  proof (cases "retry_count < max_retries \<and> g_status (http_get e ?tr1 u h) \<noteq> 200
                \<and> retry_count + 1 < max_retries")
    case True
    then have "extends tr0 (snd (get_loop e u h (retry_count + 1) ?tr3))"
      using "1.IH" [OF _ refl refl refl _ _ e3] by simp
    with True show ?thesis
      by (subst get_loop.simps) (simp add: Let_def)
  next
    case False
    with e2 "1.prems" show ?thesis
      by (subst get_loop.simps) (auto simp: Let_def)
  qed
qed

lemma make_get_extends: "make_get_api_call e u h tr = (res, tr1) \<Longrightarrow> extends tr tr1"
  using get_loop_extends [OF extends_refl, of tr e u h 0]
  by (auto simp: make_get_api_call_def extends_refl split: if_splits)

lemma post_loop_extends: "extends tr0 tr \<Longrightarrow> extends tr0 (snd (post_loop e rq n lg tr))"
proof (induction e rq n lg tr rule: post_loop.induct)
  case (1 e rq retry_count use_legacy tr)
  let ?tr1 = "tr @ [Sleep MIN_DELAY]"
  let ?tr2 = "?tr1 @ [HttpPost rq]"
  let ?tr3 = "?tr2 @ [Sleep (MIN_DELAY * 2 ^ (retry_count + 1))]"
  have e2: "extends tr0 ?tr2" and e3: "extends tr0 ?tr3"
    using "1.prems" by (auto intro!: extends_app)
  consider (stop) "\<not> retry_count < max_retries \<or> p_status (http_post e ?tr1 rq) = 200"
    | (again) "retry_count < max_retries" "p_status (http_post e ?tr1 rq) \<noteq> 200"
        "retry_count + 1 < max_retries"
    | (last) "retry_count < max_retries" "p_status (http_post e ?tr1 rq) \<noteq> 200"
        "\<not> retry_count + 1 < max_retries"
    by blast
  then show ?case
  proof cases
    case stop
    with e2 "1.prems" show ?thesis
      by (subst post_loop.simps) (auto simp: Let_def)
  next
    case again
    then have "extends tr0 (snd (post_loop e rq (retry_count + 1) use_legacy ?tr3))"
      using "1.IH"(1) [OF _ refl refl refl _ _ e3] by simp
    with again show ?thesis
      by (subst post_loop.simps) (simp add: Let_def)
  next
    case last
    show ?thesis
    proof (cases "use_legacy")
      case True
      with last e2 show ?thesis
        by (subst post_loop.simps) (simp add: Let_def)
    next
      case False
      show ?thesis
      proof (cases "build_compatible_legacy_payload e rq")
        case (Inl err)
        with last False e2 show ?thesis
          by (subst post_loop.simps) (simp add: Let_def)
      next
        case (Inr rq')
        with last False have "extends tr0 (snd (post_loop e rq' (retry_count + 1 - 2) True ?tr2))"
          using "1.IH"(2) [OF _ refl refl refl _ _ _ _ e2] by simp
        with last False Inr show ?thesis
          by (subst post_loop.simps) (simp add: Let_def)
      qed
    qed
  qed
qed

lemma make_post_extends: "make_post_api_call e rq tr = (res, tr1) \<Longrightarrow> extends tr tr1"
  using post_loop_extends [OF extends_refl, of tr e rq 0 False]
  by (auto simp: make_post_api_call_def extends_refl split: if_splits)

lemma details_loop_extends:
  "extends tr0 tr \<Longrightarrow> details_loop e places acc tr = (res, tr1) \<Longrightarrow> extends tr0 tr1"
proof (induction places arbitrary: acc tr)
  case Nil
  then show ?case by simp
next
  case (Cons place rest)
  show ?case
  proof (cases "py_get place ''id''")
    case (Inl err)
    with Cons.prems show ?thesis by simp
  next
    case (Inr v)
    show ?thesis
    proof (cases v)
      case (PStr pid)
      let ?tr1 = "tr @ [LoadPlaceDetails pid]"
      have e1: "extends tr0 ?tr1"
        using Cons.prems(1) by (auto intro: extends_snoc)
      show ?thesis
      proof (cases "truthy (load_place_details e tr pid)")
        case True
        with Cons.prems(2) Inr PStr
        have "details_loop e rest (acc @ [load_place_details e tr pid]) ?tr1 = (res, tr1)"
          by (simp add: Let_def split: prod.splits)
        from Cons.IH [OF e1 this] show ?thesis .
      next
        case False
        obtain d2 tr2 where g: "make_get_api_call e
            (fst (build_details_search_payload e pid)) (snd (build_details_search_payload e pid)) ?tr1 = (d2, tr2)"
          by fastforce
        let ?tr3 = "if truthy d2 then tr2 @ [StorePlaceDetails pid d2] else tr2"
        have e3: "extends tr0 ?tr3"
          using extends_trans [OF e1 make_get_extends [OF g]] by (auto intro: extends_snoc)
        from Cons.prems(2) Inr PStr False g
        have "details_loop e rest (acc @ [d2]) ?tr3 = (res, tr1)"
          by (cases "truthy d2") (auto simp: Let_def split: prod.splits)
        from Cons.IH [OF e3 this] show ?thesis .
      qed
    qed (use Cons.prems Inr in auto)
  qed
qed

lemma single_text_extends: "single_ggl_text_call e r q ident tr = (res, tr1) \<Longrightarrow> extends tr tr1"
  by (auto simp: single_ggl_text_call_def split: prod.splits sum.splits option.splits if_splits
        dest: make_post_extends dest!: details_loop_extends [rotated] )


lemma single_cat_extends: "single_ggl_cat_call e r inc exc tr = (res, tr1) \<Longrightarrow> extends tr tr1"
  by (auto simp: single_ggl_cat_call_def dest: make_post_extends)

lemma store_extends: "process_and_store_to_db e r i qr tr = (d, tr1) \<Longrightarrow> extends tr tr1"
  by (auto simp: process_and_store_to_db_def Let_def intro!: extends_snoc extends_refl)

lemma cat_collect_extends:
  "extends tr0 tr \<Longrightarrow> cat_collect e r qs ds mq tr = (ds', mq', tr1) \<Longrightarrow> extends tr0 tr1"
proof (induction qs arbitrary: ds mq tr)
  case Nil
  then show ?case by simp
next
  case (Cons q qs)
  obtain inc exc where q: "q = (inc, exc)" by (cases q)
  let ?tr1 = "tr @ [LoadDataset (make_dataset_filename_part e r inc exc)]"
  have e1: "extends tr0 ?tr1"
    using Cons.prems(1) by (auto intro!: extends_snoc)
  from Cons.prems(2) q obtain ds1 mq1 where "cat_collect e r qs ds1 mq1 ?tr1 = (ds', mq', tr1)"
    by (auto simp: Let_def split: option.splits)
  from Cons.IH [OF e1 this] show ?case .
qed

lemma cat_gather_extends:
  "extends tr0 tr \<Longrightarrow> cat_gather e r ms tr = (res, tr1) \<Longrightarrow> extends tr0 tr1"
proof (induction ms arbitrary: tr res tr1)
  case Nil
  then show ?case by simp
next
  case (Cons m ms)
  obtain i inc exc where m: "m = (i, inc, exc)" by (cases m)
  obtain r1 t1 where one: "single_ggl_cat_call e r inc exc tr = (r1, t1)" by fastforce
  have e1: "extends tr0 t1"
    using extends_trans [OF Cons.prems(1) single_cat_extends [OF one]] .
  show ?case
  proof (cases r1)
    case (Inl err)
    with Cons.prems(2) m one e1 show ?thesis by simp
  next
    case (Inr qr)
    obtain r2 t2 where rest: "cat_gather e r ms t1 = (r2, t2)" by fastforce
    from Cons.IH [OF e1 rest] have "extends tr0 t2" .
    with Cons.prems(2) m one Inr rest show ?thesis
      by (auto split: sum.splits)
  qed
qed

lemma cat_store_extends:
  "extends tr0 tr \<Longrightarrow> cat_store e r zs ds tr = (ds', tr1) \<Longrightarrow> extends tr0 tr1"
proof (induction zs arbitrary: ds tr)
  case Nil
  then show ?case by simp
next
  case (Cons z zs)
  obtain i inc exc qr where z: "z = ((i, inc, exc), qr)" by (cases z) auto
  show ?case
  proof (cases "truthy_results qr")
    case None
    with Cons.prems(2) z have "cat_store e r zs ds tr = (ds', tr1)" by simp
    from Cons.IH [OF Cons.prems(1) this] show ?thesis .
  next
    case (Some q)
    obtain d t1 where st: "process_and_store_to_db e r i q tr = (d, t1)" by fastforce
    have e1: "extends tr0 t1"
      using extends_trans [OF Cons.prems(1) store_extends [OF st]] .
    from Cons.prems(2) z Some st have "cat_store e r zs (AList.update i d ds) t1 = (ds', tr1)"
      by simp
    from Cons.IH [OF e1 this] show ?thesis .
  qed
qed

lemma fetch_cat_extends:
  assumes "fetch_cat_google_maps_api e r qs tr = (res, tr1)"
  shows "extends tr tr1"
proof -
  let ?tr0 = "tr @ [LoadDataset (make_dataset_filename e r)]"
  have e0: "extends tr ?tr0"
    by (auto intro!: extends_snoc extends_refl)
  show ?thesis
  proof (cases "truthy_ds (load_dataset e tr (make_dataset_filename e r))")
    case (Some d)
    with assms e0 show ?thesis
      by (simp add: fetch_cat_google_maps_api_def Let_def)
  next
    case None
    obtain ds mq t1 where c: "cat_collect e r qs [] [] ?tr0 = (ds, mq, t1)"
      by (metis prod_cases3)
    obtain g t2 where g: "cat_gather e r mq t1 = (g, t2)" by fastforce
    have e2: "extends tr t2"
      using cat_gather_extends [OF cat_collect_extends [OF e0 c] g] .
    show ?thesis
    proof (cases g)
      case (Inl err)
      with assms None c g e2 show ?thesis
        by (simp add: fetch_cat_google_maps_api_def Let_def)
    next
      case (Inr all)
      obtain ds' t3 where s: "cat_store e r (zip mq all) ds t2 = (ds', t3)" by fastforce
      have e3: "extends tr t3"
        using cat_store_extends [OF e2 s] .
      from assms None c g Inr s e3 show ?thesis
        by (auto simp: fetch_cat_google_maps_api_def Let_def split: sum.splits if_splits
              intro!: extends_snoc)
    qed
  qed
qed

lemma resolve_atomic_extends:
  "extends tr0 tr \<Longrightarrow> resolve_atomic e r inc exc (sp, mq, tr) = (sp', mq', tr1) \<Longrightarrow> extends tr0 tr1"
  by (auto simp: resolve_atomic_def Let_def split: if_splits option.splits intro!: extends_snoc)

lemma text_collect_extends:
  "extends tr0 tr \<Longrightarrow> text_collect e r qs (sp, mq, tr) = (sp', mq', tr1) \<Longrightarrow> extends tr0 tr1"
proof (induction qs arbitrary: sp mq tr)
  case Nil
  then show ?case by simp
next
  case (Cons q qs)
  obtain inc exc where q: "q = (inc, exc)" by (cases q)
  let ?tr1 = "tr @ [LoadDataset (make_dataset_filename_part e r inc exc)]"
  have e1: "extends tr0 ?tr1"
    using Cons.prems(1) by (auto intro!: extends_snoc)
  show ?case
  proof (cases "truthy_ds (load_dataset e tr (make_dataset_filename_part e r inc exc))")
    case (Some d)
    with Cons.prems(2) q
    have "text_collect e r qs (AList.update (make_dataset_filename_part e r inc exc) d sp, mq, ?tr1)
            = (sp', mq', tr1)"
      by (simp add: Let_def)
    from Cons.IH [OF e1 this] show ?thesis .
  next
    case None
    let ?st2 = "if inc \<noteq> [] then resolve_atomic e r inc [] (sp, mq, ?tr1) else (sp, mq, ?tr1)"
    obtain sp2 mq2 t2 where st2: "?st2 = (sp2, mq2, t2)" by (metis prod_cases3)
    have e2: "extends tr0 t2"
      using st2 e1 by (auto split: if_splits dest: resolve_atomic_extends [OF e1])
    let ?st3 = "if exc \<noteq> [] then resolve_atomic e r [] exc (sp2, mq2, t2) else (sp2, mq2, t2)"
    obtain sp3 mq3 t3 where st3: "?st3 = (sp3, mq3, t3)" by (metis prod_cases3)
    have e3: "extends tr0 t3"
      using st3 e2 by (auto split: if_splits dest: resolve_atomic_extends [OF e2])
    from Cons.prems(2) q None st2 st3 have "text_collect e r qs (sp3, mq3, t3) = (sp', mq', tr1)"
      by (cases "inc = []"; cases "exc = []") (simp_all add: Let_def)
    from Cons.IH [OF e3 this] show ?thesis .
  qed
qed

lemma text_gather_extends:
  "extends tr0 tr \<Longrightarrow> text_gather e r cs acc tr = (res, tr1) \<Longrightarrow> extends tr0 tr1"
proof (induction cs arbitrary: acc tr)
  case Nil
  then show ?case by simp
next
  case (Cons c cs)
  obtain i q where c: "c = (i, q)" by (cases c)
  obtain r1 t1 where one: "single_ggl_text_call e r q i tr = (r1, t1)" by fastforce
  have e1: "extends tr0 t1"
    using extends_trans [OF Cons.prems(1) single_text_extends [OF one]] .
  show ?case
  proof (cases r1)
    case (Inl err)
    with Cons.prems(2) c one e1 show ?thesis by simp
  next
    case (Inr kv)
    obtain k v where kv: "kv = (k, v)" by (cases kv)
    from Cons.prems(2) c one Inr kv have "text_gather e r cs (AList.update k v acc) t1 = (res, tr1)"
      by simp
    from Cons.IH [OF e1 this] show ?thesis .
  qed
qed

lemma text_store_extends:
  "extends tr0 tr \<Longrightarrow> text_store e r zs sp tr = (sp', tr1) \<Longrightarrow> extends tr0 tr1"
proof (induction zs arbitrary: sp tr)
  case Nil
  then show ?case by simp
next
  case (Cons z zs)
  obtain i qr where z: "z = (i, qr)" by (cases z)
  show ?case
  proof (cases "truthy_results qr")
    case None
    with Cons.prems(2) z have "text_store e r zs sp tr = (sp', tr1)" by simp
    from Cons.IH [OF Cons.prems(1) this] show ?thesis .
  next
    case (Some q)
    obtain d t1 where st: "process_and_store_to_db e r i q tr = (d, t1)" by fastforce
    have e1: "extends tr0 t1"
      using extends_trans [OF Cons.prems(1) store_extends [OF st]] .
    from Cons.prems(2) z Some st have "text_store e r zs (AList.update i d sp) t1 = (sp', tr1)"
      by simp
    from Cons.IH [OF e1 this] show ?thesis .
  qed
qed

lemma part_or_load_extends: "part_or_load e sp i tr = (d, tr1) \<Longrightarrow> extends tr tr1"
  by (auto simp: part_or_load_def split: option.splits intro!: extends_snoc extends_refl)

lemma text_reconstruct_extends:
  "extends tr0 tr \<Longrightarrow> text_reconstruct e r sp qs ds tr = (res, tr1) \<Longrightarrow> extends tr0 tr1"
proof (induction qs arbitrary: ds tr)
  case Nil
  then show ?case by simp
next
  case (Cons q qs)
  obtain inc exc where q: "q = (inc, exc)" by (cases q)
  obtain I t1 where i: "part_or_load e sp (make_dataset_filename_part e r inc []) tr = (I, t1)"
    by fastforce
  obtain X t2 where x: "part_or_load e sp (make_dataset_filename_part e r [] exc) t1 = (X, t2)"
    by fastforce
  have e2: "extends tr0 t2"
    using extends_trans [OF extends_trans [OF Cons.prems(1) part_or_load_extends [OF i]]
            part_or_load_extends [OF x]] .
  show ?case
  proof (cases "reconstruct I X")
    case (Inl err)
    with Cons.prems(2) q i x e2 show ?thesis by (simp add: Let_def)
  next
    case (Inr p)
    obtain d st where p: "p = (d, st)" by (cases p)
    show ?thesis
    proof (cases d)
      case None
      with Cons.prems(2) q i x Inr p have "text_reconstruct e r sp qs ds t2 = (res, tr1)"
        by (simp add: Let_def)
      from Cons.IH [OF e2 this] show ?thesis .
    next
      case (Some part)
      let ?t3 = "if st then t2 @ [StoreDataResp r part (make_dataset_filename_part e r inc exc)] else t2"
      have e3: "extends tr0 ?t3"
        using e2 by (auto intro!: extends_snoc)
      from Cons.prems(2) q i x Inr p Some
      have "text_reconstruct e r sp qs
              (AList.update (make_dataset_filename_part e r inc exc) part ds) ?t3 = (res, tr1)"
        by (simp add: Let_def)
      from Cons.IH [OF e3 this] show ?thesis .
    qed
  qed
qed

lemma fetch_text_extends:
  assumes "fetch_text_search_ggl_maps_api e r qs tr = (res, tr1)"
  shows "extends tr tr1"
proof -
  let ?tr0 = "tr @ [LoadDataset (make_dataset_filename e r)]"
  have e0: "extends tr ?tr0"
    by (auto intro!: extends_snoc extends_refl)
  show ?thesis
  proof (cases "truthy_ds (load_dataset e tr (make_dataset_filename e r))")
    case (Some d)
    with assms e0 show ?thesis
      by (simp add: fetch_text_search_ggl_maps_api_def Let_def)
  next
    case None
    obtain sp mq t1 where c: "text_collect e r qs ([], [], ?tr0) = (sp, mq, t1)"
      by (metis prod_cases3)
    have e1: "extends tr t1"
      using text_collect_extends [OF e0 c] .
    show ?thesis
    proof (cases "text_queries mq")
      case (Inl err)
      with assms None c e1 show ?thesis
        by (simp add: fetch_text_search_ggl_maps_api_def Let_def)
    next
      case (Inr tasks)
      obtain g t2 where g: "text_gather e r tasks [] t1 = (g, t2)" by fastforce
      have e2: "extends tr t2"
        using text_gather_extends [OF e1 g] .
      show ?thesis
      proof (cases g)
        case (Inl err)
        with assms None c Inr g e2 show ?thesis
          by (simp add: fetch_text_search_ggl_maps_api_def Let_def)
      next
        case gr: (Inr all)
        obtain sp' t3 where s: "text_store e r all sp t2 = (sp', t3)" by fastforce
        have e3: "extends tr t3"
          using text_store_extends [OF e2 s] .
        obtain rc t4 where rc: "text_reconstruct e r sp' qs [] t3 = (rc, t4)" by fastforce
        have e4: "extends tr t4"
          using text_reconstruct_extends [OF e3 rc] .
        from assms None c Inr g gr s rc e4 show ?thesis
          by (auto simp: fetch_text_search_ggl_maps_api_def Let_def split: sum.splits if_splits
                intro!: extends_snoc)
      qed
    qed
  qed
qed

lemma query_ggl_extends:
  assumes "query_ggl e r stype tr = (res, tr1)"
  shows "extends tr tr1"
proof -
  obtain cb kb where sep: "separate_boolean_queries e (boolean_query r) = (cb, kb)" by fastforce
  let ?first = "if contains ''default'' stype \<or> contains ''category_search'' stype
                then (case fetch_cat_google_maps_api e r (optimize_query_sequence e cb) tr of
                        (Inl err, t) \<Rightarrow> (Inl err, t)
                      | (Inr d, t) \<Rightarrow> (Inr (Some d), t))
                else (Inr None, tr)"
  obtain r1 t1 where f: "?first = (r1, t1)" by fastforce
  have e1: "extends tr t1"
    using f by (auto split: if_splits prod.splits sum.splits dest: fetch_cat_extends intro: extends_refl)
  from assms sep f e1 show ?thesis
    by (auto simp: query_ggl_def Let_def split: sum.splits if_splits option.splits
          dest!: fetch_text_extends intro: extends_trans)
qed

section \<open>The coverage planner\<close>

lemma strip_sentinels_spec:
  "strip_sentinels fs = Inr kept \<Longrightarrow> kept = filter (\<lambda>f. feature_id f \<noteq> PStr ''n/a'') fs"
  by (induction fs arbitrary: kept) (auto split: option.splits sum.splits)

lemma valid_features_subset:
  "valid_features e r fs = Inr kept \<Longrightarrow> set kept \<subseteq> set fs"
  by (induction fs arbitrary: kept) (auto split: sum.splits if_splits)

lemma map_of_projection:
  "map_of (concat (map (\<lambda>k. case map_of p k of None \<Rightarrow> [] | Some v \<Rightarrow> [(k, v)]) ks)) k'
     = (if k' \<in> set ks then map_of p k' else None)"
  by (induction ks) (auto split: option.splits)

lemma id_in_sub_fields: "''id'' \<in> set sub_fields"
  by (simp add: sub_fields_def)

lemma feature_id_sub_feature: "feature_id (sub_feature f) = feature_id f"
  by (simp add: feature_id_def sub_feature_def map_of_projection id_in_sub_fields
        split: option.splits)

lemma fetch_tail_result:
  assumes ret: "fetch_tail e vs tr = (Inr (d, bid, tok, name, nxt), tr')"
  shows "\<exists>raw kept tok0 npi0 tr1.
           v_dataset vs = Some raw
         \<and> strip_sentinels (features_of raw) = Inr kept
         \<and> rectify_if_small e vs raw tok0 tr = (npi0, tok, tr1)
         \<and> name = v_plan_name vs
         \<and> nxt = max npi0 (v_current_plan_index vs + 1)
         \<and> tr' = mark_result vs (raw\<lparr>ds_features := Some kept\<rparr>) tr1
         \<and> final_filters e (v_req vs) (raw\<lparr>ds_features := Some kept\<rparr>) = Inr d"
proof -
  from ret obtain raw bid0 tok0 where v: "v_dataset vs = Some raw"
    "v_bknd_dataset_id vs = Some bid0" "v_next_page_token vs = Some tok0"
    by (cases "v_dataset vs"; cases "v_bknd_dataset_id vs"; cases "v_next_page_token vs")
       (simp_all add: fetch_tail_def)
  obtain npi0 tok1 tr1 where rs: "rectify_if_small e vs raw tok0 tr = (npi0, tok1, tr1)"
    by (metis prod_cases3)
  obtain kept where kept: "strip_sentinels (features_of raw) = Inr kept"
    using ret v rs by (cases "strip_sentinels (features_of raw)") (simp_all add: fetch_tail_def Let_def)
  obtain d3 where d3: "final_filters e (v_req vs) (raw\<lparr>ds_features := Some kept\<rparr>) = Inr d3"
    using ret v rs kept
    by (cases "final_filters e (v_req vs) (raw\<lparr>ds_features := Some kept\<rparr>)")
       (simp_all add: fetch_tail_def Let_def)
  from ret v rs kept d3 have "tok1 = tok \<and> d3 = d \<and> name = v_plan_name vs
      \<and> nxt = max npi0 (v_current_plan_index vs + 1)
      \<and> tr' = mark_result vs (raw\<lparr>ds_features := Some kept\<rparr>) tr1"
    by (auto simp: fetch_tail_def Let_def max_def)
  with v rs kept d3 show ?thesis
    by blast
qed

lemma fetch_tail_no_sentinel:
  assumes "fetch_tail e vs tr = (Inr (d, bid, tok, name, nxt), tr')"
  shows "\<forall>f\<in>set (features_of d). feature_id f \<noteq> PStr ''n/a''"
proof -
  from fetch_tail_result [OF assms] obtain raw kept where
    kept: "strip_sentinels (features_of raw) = Inr kept"
    and fin: "final_filters e (v_req vs) (raw\<lparr>ds_features := Some kept\<rparr>) = Inr d"
    by blast
  from fin obtain d2 where
    d2: "(if action (v_req vs) = ''full data''
              then filter_ggl_data_valid_locations e (v_req vs) (raw\<lparr>ds_features := Some kept\<rparr>)
              else Inr (raw\<lparr>ds_features := Some kept\<rparr>)) = Inr d2"
    and d: "d = (if include_only_sub_properties (v_req vs) then select_sub_properties d2 else d2)"
    by (auto simp: final_filters_def split: sum.splits)
  have k: "\<forall>f\<in>set kept. feature_id f \<noteq> PStr ''n/a''"
    using strip_sentinels_spec [OF kept] by simp
  have "set (features_of d2) \<subseteq> set kept"
  proof (cases "action (v_req vs) = ''full data''")
    case True
    with d2 obtain vf where "valid_features e (v_req vs) kept = Inr vf" "features_of d2 = vf"
      by (auto simp: filter_ggl_data_valid_locations_def features_of_def split: sum.splits)
    with valid_features_subset show ?thesis by metis
  next
    case False
    with d2 show ?thesis by (auto simp: features_of_def)
  qed
  with k have k2: "\<forall>f\<in>set (features_of d2). feature_id f \<noteq> PStr ''n/a''"
    by blast
  show ?thesis
  proof (cases "include_only_sub_properties (v_req vs)")
    case True
    with d k2 show ?thesis
      by (simp add: select_sub_properties_def features_of_def feature_id_sub_feature)
  next
    case False
    with d k2 show ?thesis by simp
  qed
qed

text \<open>
  Claim C4, as the code has it. Whenever \<open>fetch_ggl_nearby\<close> returns, no feature of
  the returned collection has the id \<open>"n/a"\<close>: the sentinel filter runs after the
  loop, and the two result filters after it only drop features or project their
  properties.
\<close>

theorem no_sentinel_returned:
  assumes "fetch_ggl_nearby e r tr = (Inr (d, bknd_dataset_id, next_page_token, plan_name, next_plan_index), tr')"
  shows "\<forall>f\<in>set (features_of d). feature_id f \<noteq> PStr ''n/a''"
proof -
  obtain res tr1 where loop: "plan_loop e 30 (search_type r) (vars0 r) tr = (res, tr1)"
    by fastforce
  with assms obtain vs where "fetch_tail e vs tr1
      = (Inr (d, bknd_dataset_id, next_page_token, plan_name, next_plan_index), tr')"
    by (cases res) (simp_all add: fetch_ggl_nearby_def)
  from fetch_tail_no_sentinel [OF this] show ?thesis .
qed

lemma last_or_snoc: "last_or dflt (xs @ [x]) = x"
  by (simp add: last_or_def)

lemma resolve_step_inv:
  assumes keep: "\<forall>t q. action (fst (process_req_plan e t q)) = ''full data''"
    and inv: "plan_inv vs tr"
    and step: "resolve_step e vs tr = (vs3, tr1)"
  shows "plan_inv vs3 tr1"
proof -
  obtain rq' pn tok ci bid where p: "process_req_plan e tr (v_req vs) = (rq', pn, tok, ci, bid)"
    by (metis prod_cases5)
  from keep p have a: "action rq' = ''full data''"
    by (metis fst_conv)
  from inv step p a show ?thesis
    by (auto simp: plan_inv_def resolve_step_def Let_def steps_append rectified_append last_or_snoc)
qed

lemma after_query_inv:
  assumes inv: "plan_inv vs3 tr2"
    and step: "after_query e vs3 dataset tr2 = ((brk, vs'), tr3)"
  shows "plan_inv vs' tr3"
proof -
  obtain npi tok where p: "rectify_plan e tr2 (v_plan_name vs3) (v_current_plan_index vs3) = (npi, tok)"
    by fastforce
  from inv step p show ?thesis
    by (auto simp: plan_inv_def after_query_def Let_def steps_append rectified_append last_or_snoc
          split: if_splits)
qed

lemma plan_inv_extends: "plan_inv vs tr \<Longrightarrow> extends tr tr1 \<Longrightarrow> plan_inv vs tr1"
  by (simp add: plan_inv_def extends_plan)

lemma plan_step_inv:
  assumes keep: "\<forall>t q. action (fst (process_req_plan e t q)) = ''full data''"
    and inv: "plan_inv vs tr"
    and step: "plan_step e stype vs tr = (Inr (brk, vs'), tr')"
  shows "plan_inv vs' tr'"
proof -
  obtain vs3 tr1 where r: "resolve_step e vs tr = (vs3, tr1)" by fastforce
  obtain q tr2 where q: "query_ggl e (v_req vs3) stype tr1 = (q, tr2)" by fastforce
  from step r q obtain dataset where d: "q = Inr dataset"
    by (cases q) (simp_all add: plan_step_def)
  from step r q d have a: "after_query e vs3 dataset tr2 = ((brk, vs'), tr')"
    by (simp add: plan_step_def split: prod.splits)
  from plan_inv_extends [OF resolve_step_inv [OF keep inv r] query_ggl_extends [OF q]]
  have "plan_inv vs3 tr2" .
  from after_query_inv [OF this a] show ?thesis .
qed

lemma plan_loop_inv:
  assumes keep: "\<forall>t q. action (fst (process_req_plan e t q)) = ''full data''"
  shows "plan_inv vs tr \<Longrightarrow> plan_loop e n stype vs tr = (Inr vs', tr') \<Longrightarrow> plan_inv vs' tr'"
proof (induction n arbitrary: vs tr)
  case 0
  then show ?case by simp
next
  case (Suc n)
  obtain res tr1 where s: "plan_step e stype vs tr = (res, tr1)" by fastforce
  with Suc.prems(2) obtain brk vs1 where res: "res = Inr (brk, vs1)"
    by (cases res) auto
  from plan_step_inv [OF keep Suc.prems(1) s [unfolded res]] have i: "plan_inv vs1 tr1" .
  show ?case
  proof (cases brk)
    case True
    with Suc.prems(2) s res i show ?thesis by simp
  next
    case False
    with Suc.prems(2) s res have "plan_loop e n stype vs1 tr1 = (Inr vs', tr')" by simp
    from Suc.IH [OF i this] show ?thesis .
  qed
qed

text \<open>
  Claim C8. For a \<open>"full data"\<close> request (the plan module keeps the request in
  that mode), whenever \<open>fetch_ggl_nearby\<close> returns, the returned next index is the
  maximum of the last index that \<open>rectify_plan\<close> answered (0 when it was never
  asked) and the current step index plus one, and the last effect of the call is
  \<open>mark_plan_result\<close> for the returned plan name and the current step, with the
  flag that says whether the dataset of the last pass, stripped of its sentinels,
  has features.
\<close>

theorem next_index_and_mark:
  assumes full: "action r = ''full data''"
    and keep: "\<forall>t q. action (fst (process_req_plan e t q)) = ''full data''"
    and ret: "fetch_ggl_nearby e r [] = (Inr (d, bknd_dataset_id, next_page_token, plan_name, next_plan_index), tr')"
  shows "next_plan_index = max (last_or 0 (rectified tr')) (last_or 0 (steps tr') + 1)
       \<and> (\<exists>pre vs tr1 raw kept.
             plan_loop e 30 (search_type r) (vars0 r) [] = (Inr vs, tr1)
           \<and> v_dataset vs = Some raw
           \<and> strip_sentinels (features_of raw) = Inr kept
           \<and> tr' = pre @ [MarkPlanResult plan_name (last_or 0 (steps tr')) (kept \<noteq> [])])"
proof -
  obtain res tr1 where loop: "plan_loop e 30 (search_type r) (vars0 r) [] = (res, tr1)"
    by fastforce
  with ret obtain vs where vs: "res = Inr vs"
    and tail: "fetch_tail e vs tr1
      = (Inr (d, bknd_dataset_id, next_page_token, plan_name, next_plan_index), tr')"
    by (cases res) (simp_all add: fetch_ggl_nearby_def)
  have "plan_inv (vars0 r) []"
    using full by (simp add: plan_inv_def vars0_def last_or_def)
  from plan_loop_inv [OF keep this loop [unfolded vs]] have inv: "plan_inv vs tr1" .
  from fetch_tail_result [OF tail] obtain raw kept tok0 npi0 tr2 where
    raw: "v_dataset vs = Some raw"
    and kept: "strip_sentinels (features_of raw) = Inr kept"
    and small: "rectify_if_small e vs raw tok0 tr1 = (npi0, next_page_token, tr2)"
    and name: "plan_name = v_plan_name vs"
    and nxt: "next_plan_index = max npi0 (v_current_plan_index vs + 1)"
    and mark: "tr' = mark_result vs (raw\<lparr>ds_features := Some kept\<rparr>) tr2"
    by blast
  obtain npi tok where p: "rectify_plan e tr1 (v_plan_name vs) (v_current_plan_index vs) = (npi, tok)"
    by fastforce
  from small inv p have r2: "npi0 = last_or 0 (rectified tr2)" and s2: "steps tr2 = steps tr1"
    by (auto simp: rectify_if_small_def plan_inv_def rectified_append steps_append last_or_snoc
          split: if_splits)
  from inv have fd: "action (v_req vs) = ''full data''"
    and cur: "v_current_plan_index vs = last_or 0 (steps tr1)"
    by (simp_all add: plan_inv_def)
  have t: "ds_truthy (raw\<lparr>ds_features := Some kept\<rparr>)"
    by (simp add: ds_truthy_def)
  from mark fd t have tr': "tr' = tr2 @ [MarkPlanResult (v_plan_name vs) (v_current_plan_index vs) (kept \<noteq> [])]"
    by (simp add: mark_result_def features_of_def)
  then have st: "steps tr' = steps tr1" and rt: "rectified tr' = rectified tr2"
    by (simp_all add: steps_append rectified_append s2)
  from nxt r2 cur st rt have "next_plan_index = max (last_or 0 (rectified tr')) (last_or 0 (steps tr') + 1)"
    by simp
  moreover from tr' name cur st
  have "tr' = tr2 @ [MarkPlanResult plan_name (last_or 0 (steps tr')) (kept \<noteq> [])]"
    by simp
  ultimately show ?thesis
    using loop vs raw kept by blast
qed

section \<open>A run against the failing provider\<close>

lemma payload0: "build_category_search_payload env0 req0 [''cafe''] [] = rq0"
  by (simp add: build_category_search_payload_def env0_def req0_def rq0_def conf0_def)

lemma post0:
  "make_post_api_call env0 rq0 tr = (Inr (Some (replicate 20 (sentinel 429))), tr @ exhausted_trace)"
  using post_loop_exhausted [of env0 rq0 legacy0 tr, OF env0_fails legacy0_eq] env0_live
  by (simp add: make_post_api_call_def exhausted_trace_def env0_def)

lemma sentinel0: "boxmap0 (replicate 20 (sentinel 429)) rad = sentinel_batch"
  by (simp add: boxmap0_def sentinel_def sentinel_batch_def sentinel_feature_def str_int_def)

lemma union_replicate:
  "feature_id f \<noteq> PNone \<Longrightarrow> hashable (feature_id f) \<Longrightarrow> feature_id f \<in> seen \<Longrightarrow>
   union_features (replicate n f) (acc, seen) = Inr (acc, seen)"
  by (induction n) auto

lemma combine0: "combine [(''cafe|'', sentinel_batch)] = Inr sentinel_combined"
proof -
  have id: "feature_id sentinel_feature = PStr ''n/a''"
    by (simp add: feature_id_def sentinel_feature_def)
  have "replicate 20 sentinel_feature = sentinel_feature # replicate 19 sentinel_feature"
    by (simp add: numeral_eq_Suc)
  then have "union_features (replicate 20 sentinel_feature) ([], {})
               = Inr ([sentinel_feature], {PStr ''n/a''})"
    using union_replicate [of sentinel_feature "{PStr ''n/a''}" 19 "[sentinel_feature]"]
    by (simp add: id)
  then show ?thesis
    by (simp add: combine_def sentinel_batch_def sentinel_combined_def)
qed

lemma truthy_results_replicate:
  "0 < n \<Longrightarrow> truthy_results (Some (replicate n x)) = Some (replicate n x)"
  by (cases n) (simp_all add: truthy_results_def)

lemma cat0:
  "fetch_cat_google_maps_api env0 req0 [([''cafe''], [])] tr
     = (Inr sentinel_combined,
        tr @ [LoadDataset ''all'', LoadDataset ''cafe|''] @ exhausted_trace
           @ [StoreDataResp req0 sentinel_batch ''cafe|'', StoreDataResp req0 sentinel_combined ''all''])"
proof -
  have names: "make_dataset_filename env0 req0 = ''all''"
    "make_dataset_filename_part env0 req0 [''cafe''] [] = ''cafe|''"
    "\<And>t i. load_dataset env0 t i = None"
    "radius req0 = 1500" "new_ggl_to_boxmap env0 = boxmap0" "convert_strings_to_ints env0 = (\<lambda>d. d)"
    by (simp_all add: env0_def req0_def)
  have feats: "features_of sentinel_combined \<noteq> []"
    by (simp add: features_of_def sentinel_combined_def)
  show ?thesis
    by (simp add: fetch_cat_google_maps_api_def Let_def names truthy_ds_def single_ggl_cat_call_def
          payload0 post0 truthy_results_replicate process_and_store_to_db_def sentinel0 combine0 feats)
qed

lemma query0:
  "query_ggl env0 req0 ''category_search'' tr
     = (Inr sentinel_combined,
        tr @ [LoadDataset ''all'', LoadDataset ''cafe|''] @ exhausted_trace
           @ [StoreDataResp req0 sentinel_batch ''cafe|'', StoreDataResp req0 sentinel_combined ''all''])"
proof -
  have sep: "separate_boolean_queries env0 (boolean_query req0) = (''cafe'', ''cafe'')"
    "optimize_query_sequence env0 ''cafe'' = [([''cafe''], [])]"
    by (simp_all add: env0_def req0_def)
  have c: "contains ''category_search'' ''category_search''"
    "\<not> contains ''keyword_search'' ''category_search''"
    by simp_all
  show ?thesis
    by (simp only: query_ggl_def sep c cat0 Let_def split simp_thms if_True if_False sum.case
          option.case)
qed


lemma nearby_run:
  "fetch_ggl_nearby env0 req0 [] = (Inr (empty_result, ''all'', ''next'', ''plan'', 2), nearby_trace)"
proof -
  have env: "process_req_plan env0 [] req0 = (req0, ''plan'', ''tok'', 0, ''bid'')"
    "make_dataset_filename env0 req0 = ''all''"
    "\<And>t n i. rectify_plan env0 t n i = (i + 2, ''next'')"
    by (simp_all add: env0_def req0_def)
  have rq: "action req0 = ''full data''" "search_type req0 = ''category_search''"
    "\<not> include_only_sub_properties req0" "\<not> include_rating_info req0"
    by (simp_all add: req0_def)
  have r: "resolve_step env0 (vars0 req0) []
             = ((vars0 req0)\<lparr>v_plan_name := ''plan'', v_next_page_token := Some ''tok'',
                   v_current_plan_index := 0, v_bknd_dataset_id := Some ''all''\<rparr>,
                [ProcessReqPlan req0 req0 ''plan'' ''tok'' 0])"
    by (simp add: resolve_step_def vars0_def rq env Let_def)
  let ?vs3 = "(vars0 req0)\<lparr>v_plan_name := ''plan'', v_next_page_token := Some ''tok'',
                   v_current_plan_index := 0, v_bknd_dataset_id := Some ''all''\<rparr>"
  have tds: "ds_truthy sentinel_combined" "features_of sentinel_combined = [sentinel_feature]"
    by (simp_all add: ds_truthy_def features_of_def sentinel_combined_def)
  have v3: "v_req ?vs3 = req0"
    by (simp add: vars0_def)
  have a: "\<And>tr. after_query env0 ?vs3 sentinel_combined tr
             = ((True, ?vs3\<lparr>v_dataset := Some sentinel_combined\<rparr>), tr)"
    by (simp add: after_query_def vars0_def rq tds Let_def)
  have step: "plan_step env0 ''category_search'' (vars0 req0) []
                = (Inr (True, ?vs3\<lparr>v_dataset := Some sentinel_combined\<rparr>),
                   [ProcessReqPlan req0 req0 ''plan'' ''tok'' 0, LoadDataset ''all'', LoadDataset ''cafe|'']
                   @ exhausted_trace
                   @ [StoreDataResp req0 sentinel_batch ''cafe|'', StoreDataResp req0 sentinel_combined ''all''])"
    by (simp add: plan_step_def r v3 query0 a)
  have loop: "plan_loop env0 30 ''category_search'' (vars0 req0) []
                = (Inr (?vs3\<lparr>v_dataset := Some sentinel_combined\<rparr>),
                   [ProcessReqPlan req0 req0 ''plan'' ''tok'' 0, LoadDataset ''all'', LoadDataset ''cafe|'']
                   @ exhausted_trace
                   @ [StoreDataResp req0 sentinel_batch ''cafe|'', StoreDataResp req0 sentinel_combined ''all''])"
  proof -
    have "plan_loop env0 30 ''category_search'' (vars0 req0) []
            = plan_loop env0 (Suc 29) ''category_search'' (vars0 req0) []"
      by simp
    also have "\<dots> = (Inr (?vs3\<lparr>v_dataset := Some sentinel_combined\<rparr>),
                   [ProcessReqPlan req0 req0 ''plan'' ''tok'' 0, LoadDataset ''all'', LoadDataset ''cafe|'']
                   @ exhausted_trace
                   @ [StoreDataResp req0 sentinel_batch ''cafe|'', StoreDataResp req0 sentinel_combined ''all''])"
      by (simp only: plan_loop.simps step split sum.case if_True)
    finally show ?thesis .
  qed
  have strip: "strip_sentinels [sentinel_feature] = Inr []"
    by (simp add: sentinel_feature_def feature_id_def)
  have fin: "final_filters env0 req0 (sentinel_combined\<lparr>ds_features := Some []\<rparr>) = Inr empty_result"
    by (simp add: final_filters_def rq filter_ggl_data_valid_locations_def features_of_def
          sentinel_combined_def empty_result_def)
  have t2: "ds_truthy (sentinel_combined\<lparr>ds_features := Some []\<rparr>)"
    by (simp add: ds_truthy_def)
  have f2: "features_of (sentinel_combined\<lparr>ds_features := Some []\<rparr>) = []"
    by (simp add: features_of_def)
  have tail: "fetch_tail env0 (?vs3\<lparr>v_dataset := Some sentinel_combined\<rparr>)
                ([ProcessReqPlan req0 req0 ''plan'' ''tok'' 0, LoadDataset ''all'', LoadDataset ''cafe|'']
                   @ exhausted_trace
                   @ [StoreDataResp req0 sentinel_batch ''cafe|'', StoreDataResp req0 sentinel_combined ''all''])
              = (Inr (empty_result, ''all'', ''next'', ''plan'', 2), nearby_trace)"
    by (simp add: fetch_tail_def vars0_def rectify_if_small_def tds env rq
          strip fin mark_result_def t2 f2 nearby_trace_def Let_def del: strip_sentinels.simps)
  show ?thesis
    by (simp only: fetch_ggl_nearby_def rq loop split sum.case tail)
qed

lemma sample_run:
  "fetch_ggl_nearby env_mixed req_sample []
     = (Inr (ds_mixed\<lparr>ds_features := Some [featA]\<rparr>, ''all'', [], [], 1), [LoadDataset ''all''])"
proof -
  have rq: "action req_sample = ''sample''" "search_type req_sample = ''category_search''"
    "\<not> include_only_sub_properties req_sample" "page_token req_sample = []"
    by (simp_all add: req_sample_def req0_def)
  have env: "fetch_lat_lng_bounding_box env_mixed req_sample = req_sample"
    "make_dataset_filename env_mixed req_sample = ''all''"
    "load_dataset env_mixed [] ''all'' = Some ds_mixed"
    "separate_boolean_queries env_mixed (boolean_query req_sample) = (''cafe'', ''cafe'')"
    by (simp_all add: env_mixed_def env0_def req_sample_def req0_def)
  have tds: "ds_truthy ds_mixed" "features_of ds_mixed = [featA, sentinel_feature]"
    by (simp_all add: ds_truthy_def features_of_def ds_mixed_def)
  have c: "contains ''category_search'' ''category_search''"
    "\<not> contains ''keyword_search'' ''category_search''"
    by simp_all
  have q: "query_ggl env_mixed req_sample ''category_search'' [] = (Inr ds_mixed, [LoadDataset ''all''])"
    by (simp add: query_ggl_def env c fetch_cat_google_maps_api_def truthy_ds_def tds Let_def)
  have r: "resolve_step env_mixed (vars0 req_sample) []
             = ((vars0 req_sample)\<lparr>v_next_page_token := Some [], v_bknd_dataset_id := Some ''all''\<rparr>, [])"
    by (simp add: resolve_step_def vars0_def rq env Let_def)
  let ?vs3 = "(vars0 req_sample)\<lparr>v_next_page_token := Some [], v_bknd_dataset_id := Some ''all''\<rparr>"
  have v3: "v_req ?vs3 = req_sample"
    by (simp add: vars0_def)
  have a: "\<And>tr. after_query env_mixed ?vs3 ds_mixed tr = ((True, ?vs3\<lparr>v_dataset := Some ds_mixed\<rparr>), tr)"
    by (simp add: after_query_def vars0_def rq Let_def)
  have step: "plan_step env_mixed ''category_search'' (vars0 req_sample) []
                = (Inr (True, ?vs3\<lparr>v_dataset := Some ds_mixed\<rparr>), [LoadDataset ''all''])"
    by (simp add: plan_step_def r v3 q a)
  have loop: "plan_loop env_mixed 30 ''category_search'' (vars0 req_sample) []
                = (Inr (?vs3\<lparr>v_dataset := Some ds_mixed\<rparr>), [LoadDataset ''all''])"
  proof -
    have "plan_loop env_mixed 30 ''category_search'' (vars0 req_sample) []
            = plan_loop env_mixed (Suc 29) ''category_search'' (vars0 req_sample) []"
      by simp
    also have "\<dots> = (Inr (?vs3\<lparr>v_dataset := Some ds_mixed\<rparr>), [LoadDataset ''all''])"
      by (simp only: plan_loop.simps step split sum.case if_True)
    finally show ?thesis .
  qed
  have strip: "strip_sentinels [featA, sentinel_feature] = Inr [featA]"
    by (simp add: sentinel_feature_def featA_def feature_id_def)
  have fin: "final_filters env_mixed req_sample (ds_mixed\<lparr>ds_features := Some [featA]\<rparr>)
               = Inr (ds_mixed\<lparr>ds_features := Some [featA]\<rparr>)"
    by (simp add: final_filters_def rq)
  have tail: "fetch_tail env_mixed (?vs3\<lparr>v_dataset := Some ds_mixed\<rparr>) [LoadDataset ''all'']
              = (Inr (ds_mixed\<lparr>ds_features := Some [featA]\<rparr>, ''all'', [], [], 1), [LoadDataset ''all''])"
    by (simp add: fetch_tail_def vars0_def rectify_if_small_def tds rq
          strip fin mark_result_def Let_def del: strip_sentinels.simps)
  show ?thesis
    by (simp only: fetch_ggl_nearby_def rq loop split sum.case tail)
qed

theorem no_sentinel_returned_witness:
  "fetch_ggl_nearby env_mixed req_sample []
     = (Inr (ds_mixed\<lparr>ds_features := Some [featA]\<rparr>, ''all'', [], [], 1), [LoadDataset ''all''])
   \<and> map feature_id (features_of ds_mixed) = [PStr ''x'', PStr ''n/a'']
   \<and> features_of (ds_mixed\<lparr>ds_features := Some [featA]\<rparr>) = [featA]
   \<and> feature_id featA \<noteq> PStr ''n/a''"
proof -
  have feats: "features_of (ds_mixed\<lparr>ds_features := Some [featA]\<rparr>) = [featA]"
    by (simp add: features_of_def)
  have ids: "map feature_id (features_of ds_mixed) = [PStr ''x'', PStr ''n/a'']"
    by (simp add: features_of_def ds_mixed_def feature_id_def featA_def sentinel_feature_def)
  from no_sentinel_returned [OF sample_run]
  have "feature_id featA \<noteq> PStr ''n/a''"
    by (simp only: feats list.set insert_iff ball_simps simp_thms)
  with sample_run ids feats show ?thesis
    by (intro conjI)
qed

text \<open>
  Claim C4 as stated fails in its first part. Against the provider that always
  answers 429, the sentinels are stored (the batch of 20 under the fingerprint of
  the term, the combined dataset under the combined fingerprint) before any
  filter runs; the loop tests the combined dataset with its one sentinel, finds it
  non-empty and leaves without asking \<open>rectify_plan\<close> (on the stripped dataset the
  same test would not leave the loop); the run makes one pass only, and the
  sentinel is stripped afterwards.
\<close>

theorem sentinels_seen_by_planner_counterexample:
  "fetch_ggl_nearby env0 req0 [] = (Inr (empty_result, ''all'', ''next'', ''plan'', 2), nearby_trace)
   \<and> StoreDataResp req0 sentinel_batch ''cafe|'' \<in> set nearby_trace
   \<and> StoreDataResp req0 sentinel_combined ''all'' \<in> set nearby_trace
   \<and> map feature_id (features_of sentinel_combined) = [PStr ''n/a'']
   \<and> strip_sentinels (features_of sentinel_combined) = Inr []
   \<and> fst (after_query env0 (vars0 req0) sentinel_combined [])
       = (True, (vars0 req0)\<lparr>v_dataset := Some sentinel_combined\<rparr>)
   \<and> snd (after_query env0 (vars0 req0) sentinel_combined []) = []
   \<and> fst (fst (after_query env0 (vars0 req0) (sentinel_combined\<lparr>ds_features := Some []\<rparr>) [])) = False
   \<and> steps nearby_trace = [0]
   \<and> rectified nearby_trace = [2]"
proof (intro conjI)
  show "fetch_ggl_nearby env0 req0 [] = (Inr (empty_result, ''all'', ''next'', ''plan'', 2), nearby_trace)"
    by (rule nearby_run)
  show "StoreDataResp req0 sentinel_batch ''cafe|'' \<in> set nearby_trace"
    by (simp add: nearby_trace_def)
  show "StoreDataResp req0 sentinel_combined ''all'' \<in> set nearby_trace"
    by (simp add: nearby_trace_def)
  show "map feature_id (features_of sentinel_combined) = [PStr ''n/a'']"
    by (simp add: features_of_def sentinel_combined_def feature_id_def sentinel_feature_def)
  show "strip_sentinels (features_of sentinel_combined) = Inr []"
    by (simp add: features_of_def sentinel_combined_def feature_id_def sentinel_feature_def)
  have rq: "action req0 = ''full data''"
    by (simp add: req0_def)
  have tds: "ds_truthy sentinel_combined" "features_of sentinel_combined = [sentinel_feature]"
    "ds_truthy (sentinel_combined\<lparr>ds_features := Some []\<rparr>)"
    "features_of (sentinel_combined\<lparr>ds_features := Some []\<rparr>) = []"
    by (simp_all add: ds_truthy_def features_of_def sentinel_combined_def)
  have env: "\<And>t n i. rectify_plan env0 t n i = (i + 2, ''next'')"
    by (simp add: env0_def)
  show "fst (after_query env0 (vars0 req0) sentinel_combined [])
       = (True, (vars0 req0)\<lparr>v_dataset := Some sentinel_combined\<rparr>)"
    by (simp add: after_query_def vars0_def rq tds Let_def)
  show "snd (after_query env0 (vars0 req0) sentinel_combined []) = []"
    by (simp add: after_query_def vars0_def rq tds Let_def)
  show "fst (fst (after_query env0 (vars0 req0) (sentinel_combined\<lparr>ds_features := Some []\<rparr>) [])) = False"
    by (simp add: after_query_def vars0_def rq tds env Let_def)
  show "steps nearby_trace = [0]"
    by (simp add: nearby_trace_def exhausted_trace_def)
  show "rectified nearby_trace = [2]"
    by (simp add: nearby_trace_def exhausted_trace_def)
qed

theorem next_index_and_mark_witness:
  "action req0 = ''full data''
   \<and> (\<forall>t q. action (fst (process_req_plan env0 t q)) = ''full data'')
   \<and> fetch_ggl_nearby env0 req0 [] = (Inr (empty_result, ''all'', ''next'', ''plan'', 2), nearby_trace)
   \<and> rectified nearby_trace = [2]
   \<and> steps nearby_trace = [0]
   \<and> (2::int) = max (last_or 0 (rectified nearby_trace)) (last_or 0 (steps nearby_trace) + 1)
   \<and> last nearby_trace = MarkPlanResult ''plan'' 0 False"
proof -
  have full: "action req0 = ''full data''"
    by (simp add: req0_def)
  have keep: "\<forall>t q. action (fst (process_req_plan env0 t q)) = ''full data''"
    by (simp add: env0_def)
  have st: "steps nearby_trace = [0]" and rt: "rectified nearby_trace = [2]"
    by (simp_all add: nearby_trace_def exhausted_trace_def)
  have l: "last nearby_trace = MarkPlanResult ''plan'' 0 False"
    by (simp add: nearby_trace_def)
  from next_index_and_mark [OF full keep nearby_run]
  have "(2::int) = max (last_or 0 (rectified nearby_trace)) (last_or 0 (steps nearby_trace) + 1)"
    by (rule conjunct1)
  with full keep nearby_run rt st l show ?thesis
    by (intro conjI)
qed

section \<open>A failed keyword search in sample mode\<close>

lemma legacy_kw_eq: "build_compatible_legacy_payload env0 rq_kw = Inr legacy_kw"
  by (simp add: build_compatible_legacy_payload_def env0_def rq_kw_def legacy_kw_def
        legacy_request_def conf0_def str_int_def)

lemma post_kw:
  "fst (make_post_api_call env0 rq_kw tr) = Inr (Some (replicate 20 (sentinel 429)))"
  using post_loop_exhausted [of env0 rq_kw legacy_kw tr, OF env0_fails legacy_kw_eq] env0_live
  by (simp add: make_post_api_call_def env0_def)

lemma text_kw:
  "fst (fetch_text_search_ggl_maps_api env0 req_kw [([''cafe''], [])] tr)
     = Inr (sentinel_combined\<lparr>ds_features := Some [placeholder_feature]\<rparr>)"
proof -
  have names: "make_dataset_filename env0 req_kw = ''all''"
    "make_dataset_filename_part env0 req_kw [''cafe''] [] = ''cafe|''"
    "make_dataset_filename_part env0 req_kw [] [] = ''|''"
    "\<And>t i. load_dataset env0 t i = None"
    "radius req_kw = 1500" "new_ggl_to_boxmap env0 = boxmap0" "convert_strings_to_ints env0 = (\<lambda>d. d)"
    "\<not> ids_and_location_only req_kw"
    by (simp_all add: env0_def req_kw_def req0_def)
  have payload: "build_text_search_payload env0 req_kw ''cafe'' = rq_kw"
    by (simp add: build_text_search_payload_def env0_def req_kw_def req0_def rq_kw_def conf0_def)
  obtain t1 where call: "\<And>tr. \<exists>t1. make_post_api_call env0 rq_kw tr
                              = (Inr (Some (replicate 20 (sentinel 429))), t1)"
    using post_kw by (metis prod.collapse)
  have tb: "ds_truthy sentinel_batch"
    by (simp add: ds_truthy_def sentinel_batch_def)
  have rec: "reconstruct (Some sentinel_batch) None = Inr (Some sentinel_batch, False)"
    by (simp add: reconstruct_def truthy_ds_def tb)
  have feats: "features_of sentinel_combined = [sentinel_feature]"
    by (simp add: features_of_def sentinel_combined_def)
  have del: "del_id sentinel_feature = placeholder_feature"
    by (simp add: del_id_def sentinel_feature_def placeholder_feature_def AList.delete_eq)
  have single: "\<And>tr. \<exists>t1. single_ggl_text_call env0 req_kw ''cafe'' ''cafe|'' tr
                          = (Inr (''cafe|'', Some (replicate 20 (sentinel 429))), t1)"
  proof -
    fix tr
    from call [of tr] obtain t1 where "make_post_api_call env0 rq_kw tr
                              = (Inr (Some (replicate 20 (sentinel 429))), t1)"
      by blast
    then show "\<exists>t1. single_ggl_text_call env0 req_kw ''cafe'' ''cafe|'' tr
                          = (Inr (''cafe|'', Some (replicate 20 (sentinel 429))), t1)"
      by (simp add: single_ggl_text_call_def payload names)
  qed
  let ?t0 = "tr @ [LoadDataset ''all'', LoadDataset ''cafe|'', LoadDataset ''cafe|'']"
  from single [of ?t0] obtain t1 where s: "single_ggl_text_call env0 req_kw ''cafe'' ''cafe|'' ?t0
                          = (Inr (''cafe|'', Some (replicate 20 (sentinel 429))), t1)"
    by blast
  have sp: "truthy_ds (Some sentinel_batch) = Some sentinel_batch"
    by (simp add: truthy_ds_def tb)
  show ?thesis
    by (simp add: fetch_text_search_ggl_maps_api_def Let_def names truthy_ds_def [of None]
          resolve_atomic_def s truthy_results_replicate process_and_store_to_db_def sentinel0
          part_or_load_def sp rec combine0 feats del)
qed

text \<open>
  The sentinel filter keys on the \<open>id\<close> property. In a keyword search without
  \<open>ids_and_location_only\<close> the composition function has deleted that property
  before the filter runs, so the record that stands for the failed call, with its
  placeholder name and without an id, passes the filter and is returned in
  \<open>"sample"\<close> mode.
\<close>

lemma placeholder_returned:
  "fst (fetch_ggl_nearby env0 req_kw [])
     = Inr (sentinel_combined\<lparr>ds_features := Some [placeholder_feature]\<rparr>, ''all'', [], [], 1)"
proof -
  have rq: "action req_kw = ''sample''" "search_type req_kw = ''keyword_search''"
    "\<not> include_only_sub_properties req_kw" "page_token req_kw = []"
    by (simp_all add: req_kw_def req0_def)
  have env: "fetch_lat_lng_bounding_box env0 req_kw = req_kw"
    "make_dataset_filename env0 req_kw = ''all''"
    "separate_boolean_queries env0 (boolean_query req_kw) = (''cafe'', ''cafe'')"
    "text_search_query_sequence env0 ''cafe'' = [([''cafe''], [])]"
    by (simp_all add: env0_def req_kw_def req0_def)
  have c: "\<not> contains ''default'' ''keyword_search''"
    "\<not> contains ''category_search'' ''keyword_search''"
    "contains ''keyword_search'' ''keyword_search''"
    by simp_all
  let ?d = "sentinel_combined\<lparr>ds_features := Some [placeholder_feature]\<rparr>"
  obtain t1 where q: "query_ggl env0 req_kw ''keyword_search'' []  = (Inr ?d, t1)"
    using text_kw [of "[]"]
    by (simp add: query_ggl_def env c Let_def) (metis prod.collapse)
  have r: "resolve_step env0 (vars0 req_kw) []
             = ((vars0 req_kw)\<lparr>v_next_page_token := Some [], v_bknd_dataset_id := Some ''all''\<rparr>, [])"
    by (simp add: resolve_step_def vars0_def rq env Let_def)
  let ?vs3 = "(vars0 req_kw)\<lparr>v_next_page_token := Some [], v_bknd_dataset_id := Some ''all''\<rparr>"
  have v3: "v_req ?vs3 = req_kw"
    by (simp add: vars0_def)
  have a: "\<And>tr. after_query env0 ?vs3 ?d tr = ((True, ?vs3\<lparr>v_dataset := Some ?d\<rparr>), tr)"
    by (simp add: after_query_def vars0_def rq Let_def)
  have step: "plan_step env0 ''keyword_search'' (vars0 req_kw) []
                = (Inr (True, ?vs3\<lparr>v_dataset := Some ?d\<rparr>), t1)"
    by (simp add: plan_step_def r v3 q a)
  have loop: "plan_loop env0 30 ''keyword_search'' (vars0 req_kw) []
                = (Inr (?vs3\<lparr>v_dataset := Some ?d\<rparr>), t1)"
  proof -
    have "plan_loop env0 30 ''keyword_search'' (vars0 req_kw) []
            = plan_loop env0 (Suc 29) ''keyword_search'' (vars0 req_kw) []"
      by simp
    also have "\<dots> = (Inr (?vs3\<lparr>v_dataset := Some ?d\<rparr>), t1)"
      by (simp only: plan_loop.simps step split sum.case if_True)
    finally show ?thesis .
  qed
  have feats: "features_of ?d = [placeholder_feature]"
    by (simp add: features_of_def)
  have strip: "strip_sentinels [placeholder_feature] = Inr [placeholder_feature]"
    by (simp add: placeholder_feature_def feature_id_def)
  have same: "?d\<lparr>ds_features := Some [placeholder_feature]\<rparr> = ?d"
    by simp
  have fin: "final_filters env0 req_kw ?d = Inr ?d"
    by (simp add: final_filters_def rq)
  have tail: "fetch_tail env0 (?vs3\<lparr>v_dataset := Some ?d\<rparr>) t1
              = (Inr (?d, ''all'', [], [], 1), t1)"
    by (simp add: fetch_tail_def vars0_def rectify_if_small_def rq feats
          strip fin mark_result_def Let_def del: strip_sentinels.simps)
  show ?thesis
    by (simp only: fetch_ggl_nearby_def rq loop split sum.case tail fst_conv)
qed

end
